theory Spec2Isabelle
  imports Complex_Main
begin

section \<open>Conventions\<close>

text \<open>
  The program is TypeScript/JavaScript. A JavaScript number is modelled as a \<^typ>\<open>real\<close>
  (exact arithmetic, no rounding error); a number that the source only uses as a counter or
  an index is an \<^typ>\<open>int\<close> or a \<^typ>\<open>nat\<close>. Where a JavaScript operation yields
  \<open>NaN\<close> or an infinity (a division by zero, a read outside an array) the model says so
  with \<^const>\<open>None\<close>, since HOL's own division by zero is \<open>0\<close>. \<open>Math.floor\<close> is
  \<^const>\<open>floor\<close>. A typed array holds the numbers stored in it unchanged.
\<close>

section \<open>Beat detection (AudioPlayerProvider.ts, analyzeAudioFeatures)\<close>

text \<open>
  The webview script keeps one object \<open>beatDetector = {history: [], threshold: 1.3, lastBeat: 0}\<close>.
  The beat-detection block of \<open>analyzeAudioFeatures\<close> pushes the frame's energy on the
  history, drops the oldest sample once the history holds more than 43, takes the mean of
  what is left (the new sample included) and compares.
\<close>

record beatDetector =
  history :: "real list"
  threshold :: real
  lastBeat :: real

definition initialBeatDetector :: beatDetector where
  "initialBeatDetector = \<lparr>history = [], threshold = 13 / 10, lastBeat = 0\<rparr>"

definition detectBeat :: "beatDetector \<Rightarrow> real \<Rightarrow> beatDetector \<times> bool" where
  "detectBeat bd energy =
     (let pushed = history bd @ [energy];
          hist = (if length pushed > 43 then tl pushed else pushed);
          avgEnergy = foldl (+) 0 hist / real (length hist);
          isBeat = (energy > avgEnergy * threshold bd)
      in (bd\<lparr>history := hist\<rparr>, isBeat))"

text \<open>One call per frame, in arrival order; the flags are collected.\<close>

fun feed :: "beatDetector \<Rightarrow> real list \<Rightarrow> beatDetector \<times> bool list" where
  "feed bd [] = (bd, [])"
| "feed bd (e # es) =
     (case detectBeat bd e of (bd', b) \<Rightarrow>
        (case feed bd' es of (bd'', bs) \<Rightarrow> (bd'', b # bs)))"

section \<open>The colour library\<close>

text \<open>
  The colour code calls the third-party package \<open>tinycolor2\<close>, which is not part of the
  repository. Its operations are taken as parameters: a value of type \<open>'c tinycolor_lib\<close>
  gives one implementation of the calls the repository makes, over a type \<open>'c\<close> of colour
  objects. \<open>parse lib s\<close> is \<open>tinycolor(s)\<close>, \<open>fromHsl lib x\<close> is \<open>tinycolor({h, s, l})\<close>,
  every other field is the method of the same name (\<open>analogous lib c\<close> is \<open>c.analogous()\<close>
  with its default arguments). Colour objects are values here, so \<open>clone()\<close> is the
  identity. Theorems quantify over the library.
\<close>

record hsl =
  hsl_h :: real
  hsl_s :: real
  hsl_l :: real

record 'c tinycolor_lib =
  parse :: "string \<Rightarrow> 'c"
  isValid :: "'c \<Rightarrow> bool"
  toHsl :: "'c \<Rightarrow> hsl"
  fromHsl :: "hsl \<Rightarrow> 'c"
  spin :: "'c \<Rightarrow> real \<Rightarrow> 'c"
  darken :: "'c \<Rightarrow> real \<Rightarrow> 'c"
  lighten :: "'c \<Rightarrow> real \<Rightarrow> 'c"
  saturate :: "'c \<Rightarrow> real \<Rightarrow> 'c"
  setAlpha :: "'c \<Rightarrow> real \<Rightarrow> 'c"
  mix :: "'c \<Rightarrow> 'c \<Rightarrow> real \<Rightarrow> 'c"
  analogous :: "'c \<Rightarrow> 'c list"
  toHexString :: "'c \<Rightarrow> string"

section \<open>Hue interpolation and temperature (colors/groups.ts)\<close>

definition interpolateHue :: "real \<Rightarrow> real \<Rightarrow> real \<Rightarrow> real" where
  "interpolateHue start end' t =
     (let diff = end' - start;
          diff = (if diff > 180 then diff - 360
                  else if diff < - 180 then diff + 360 else diff);
          result = start + diff * t;
          result = (if result < 0 then result + 360 else result);
          result = (if result \<ge> 360 then result - 360 else result)
      in result)"

text \<open>\<open>adjustTemperature\<close> returns \<open>null\<close> (\<^const>\<open>None\<close>) for a colour that does not parse.\<close>

definition adjustTemperature :: "'c tinycolor_lib \<Rightarrow> string \<Rightarrow> real \<Rightarrow> string option" where
  "adjustTemperature lib color amount =
     (let c = parse lib color in
      if \<not> isValid lib c then None
      else
        let hsl = toHsl lib c;
            targetHue =
              (if amount > 0 then interpolateHue (hsl_h hsl) 30 (amount / 100)
               else interpolateHue (hsl_h hsl) 210 (\<bar>amount\<bar> / 100))
        in Some (toHexString lib
             (fromHsl lib \<lparr>hsl_h = targetHue, hsl_s = hsl_s hsl * 100, hsl_l = hsl_l hsl * 100\<rparr>)))"


section \<open>Harmonies and gradients (colors/groups.ts)\<close>




text \<open>
  \<open>generateGradient\<close>: \<open>steps\<close> is a whole number; the loop runs \<open>i\<close> over
  \<open>0, \<dots>, steps - 1\<close>.
\<close>

definition generateGradient :: "'c tinycolor_lib \<Rightarrow> string \<Rightarrow> string \<Rightarrow> int \<Rightarrow> string list" where
  "generateGradient lib startColor endColor steps =
     (let start = parse lib startColor;
          end' = parse lib endColor in
      if \<not> isValid lib start \<or> \<not> isValid lib end' \<or> steps < 2 then []
      else map (\<lambda>i. let amount = real i / (real_of_int steps - 1);
                        mixed = mix lib start end' (amount * 100)
                    in toHexString lib mixed)
             [0..<nat steps])"

section \<open>Analogous colours of the colour manipulator (colors/manipulation.ts)\<close>


section \<open>RGB and Lab (colors/groups.ts)\<close>

text \<open>
  \<open>rgbToLab\<close> and \<open>labToRgb\<close>, with the source's constants. \<open>Math.pow\<close> is only called on a
  positive base here, where it is \<^const>\<open>powr\<close>; \<open>Math.round\<close> is \<^const>\<open>round\<close> (both
  are \<open>\<lfloor>x + 1/2\<rfloor>\<close>).
\<close>

record rgb =
  rgb_r :: real
  rgb_g :: real
  rgb_b :: real

record lab =
  lab_l :: real
  lab_a :: real
  lab_b :: real

definition rgbToLab :: "rgb \<Rightarrow> lab" where
  "rgbToLab rgb =
     (let r = rgb_r rgb / 255;
          g = rgb_g rgb / 255;
          b = rgb_b rgb / 255;
          r = (if r > 0.04045 then ((r + 0.055) / 1.055) powr 2.4 else r / 12.92);
          g = (if g > 0.04045 then ((g + 0.055) / 1.055) powr 2.4 else g / 12.92);
          b = (if b > 0.04045 then ((b + 0.055) / 1.055) powr 2.4 else b / 12.92);
          x = (r * 0.4124 + g * 0.3576 + b * 0.1805) / 0.95047;
          y = (r * 0.2126 + g * 0.7152 + b * 0.0722) / 1.00000;
          z = (r * 0.0193 + g * 0.1192 + b * 0.9505) / 1.08883;
          x = (if x > 0.008856 then x powr (1 / 3) else (7.787 * x) + 16 / 116);
          y = (if y > 0.008856 then y powr (1 / 3) else (7.787 * y) + 16 / 116);
          z = (if z > 0.008856 then z powr (1 / 3) else (7.787 * z) + 16 / 116)
      in \<lparr>lab_l = (116 * y) - 16, lab_a = 500 * (x - y), lab_b = 200 * (y - z)\<rparr>)"

definition labToRgb :: "lab \<Rightarrow> rgb" where
  "labToRgb lab =
     (let y = (lab_l lab + 16) / 116;
          x = lab_a lab / 500 + y;
          z = y - lab_b lab / 200;
          x = 0.95047 * (if x * x * x > 0.008856 then x * x * x else (x - 16 / 116) / 7.787);
          y = 1.00000 * (if y * y * y > 0.008856 then y * y * y else (y - 16 / 116) / 7.787);
          z = 1.08883 * (if z * z * z > 0.008856 then z * z * z else (z - 16 / 116) / 7.787);
          r = x * 3.2406 + y * - 1.5372 + z * - 0.4986;
          g = x * - 0.9689 + y * 1.8758 + z * 0.0415;
          b = x * 0.0557 + y * - 0.2040 + z * 1.0570;
          r = (if r > 0.0031308 then 1.055 * r powr (1 / 2.4) - 0.055 else 12.92 * r);
          g = (if g > 0.0031308 then 1.055 * g powr (1 / 2.4) - 0.055 else 12.92 * g);
          b = (if b > 0.0031308 then 1.055 * b powr (1 / 2.4) - 0.055 else 12.92 * b)
      in \<lparr>rgb_r = real_of_int (max 0 (min 255 (round (r * 255)))),
          rgb_g = real_of_int (max 0 (min 255 (round (g * 255)))),
          rgb_b = real_of_int (max 0 (min 255 (round (b * 255))))\<rparr>)"

section \<open>Mel filterbank (AudioPlayerProvider.ts, webview script)\<close>

text \<open>
  \<open>numFilters\<close> and \<open>fftSize\<close> are whole numbers, \<open>sampleRate\<close> is a real. Every
  intermediate value of \<open>createMelFilterbank\<close> is a finite number when
  \<open>sampleRate > -1400\<close> and \<open>sampleRate \<noteq> 0\<close> (for \<open>fftSize = 0\<close> the bin width is an infinity
  and every bin is \<open>0\<close>, which is also what HOL's division by zero gives). Outside that range
  JavaScript computes \<open>NaN\<close> bin indices; the model then still has the right number of filters,
  and nothing below is claimed about their bins.
\<close>

record MelFilter =
  leftBin :: int
  centerBin :: int
  rightBin :: int

definition hzToMel :: "real \<Rightarrow> real" where
  "hzToMel hz = 2595 * log 10 (1 + hz / 700)"

definition melToHz :: "real \<Rightarrow> real" where
  "melToHz mel = 700 * (10 powr (mel / 2595) - 1)"

definition createMelFilterbank :: "int \<Rightarrow> int \<Rightarrow> real \<Rightarrow> MelFilter list" where
  "createMelFilterbank numFilters fftSize sampleRate =
     (let minMel = hzToMel 0;
          maxMel = hzToMel (sampleRate / 2);
          melStep = (maxMel - minMel) / (real_of_int numFilters + 1)
      in map (\<lambda>i.
            let leftMel = minMel + real i * melStep;
                centerMel = minMel + (real i + 1) * melStep;
                rightMel = minMel + (real i + 2) * melStep;
                leftHz = melToHz leftMel;
                centerHz = melToHz centerMel;
                rightHz = melToHz rightMel
            in \<lparr>leftBin = \<lfloor>leftHz / (sampleRate / real_of_int fftSize)\<rfloor>,
                centerBin = \<lfloor>centerHz / (sampleRate / real_of_int fftSize)\<rfloor>,
                rightBin = \<lfloor>rightHz / (sampleRate / real_of_int fftSize)\<rfloor>\<rparr>)
          [0..<nat numFilters])"

text \<open>
  \<open>applyMelFilterbank\<close>. A value that JavaScript computes as \<open>NaN\<close> or an infinity is
  \<^const>\<open>None\<close>: a quotient with divisor zero, the product or sum of such a value with
  anything, and the product with \<open>fftData[bin]\<close> for a negative \<open>bin\<close> (the read gives
  \<open>undefined\<close>). The frame is a list of magnitudes.
\<close>

definition jsDivide :: "real \<Rightarrow> real \<Rightarrow> real option" where
  "jsDivide a b = (if b = 0 then None else Some (a / b))"

definition filterWeight :: "MelFilter \<Rightarrow> int \<Rightarrow> real option" where
  "filterWeight f bin =
     (if bin < centerBin f
      then jsDivide (of_int (bin - leftBin f)) (of_int (centerBin f - leftBin f))
      else jsDivide (of_int (rightBin f - bin)) (of_int (rightBin f - centerBin f)))"

definition binStep :: "real list \<Rightarrow> MelFilter \<Rightarrow> real option \<times> nat \<Rightarrow> int \<Rightarrow> real option \<times> nat" where
  "binStep fftData f acc bin =
     (case acc of (acc_sum, count) \<Rightarrow>
        if bin < int (length fftData)
        then
          let sample = (if bin < 0 then None else Some (fftData ! nat bin));
              weighted = (case (sample, filterWeight f bin) of
                            (Some x, Some w) \<Rightarrow> Some (x * w) | _ \<Rightarrow> None)
          in ((case (acc_sum, weighted) of (Some a, Some b) \<Rightarrow> Some (a + b) | _ \<Rightarrow> None),
              count + 1)
        else (acc_sum, count))"

definition melValue :: "real list \<Rightarrow> MelFilter \<Rightarrow> real option" where
  "melValue fftData f =
     (case foldl (binStep fftData f) (Some 0, 0) [leftBin f..rightBin f] of
        (acc_sum, count) \<Rightarrow>
          if count > 0 then (case acc_sum of Some a \<Rightarrow> Some (a / real count) | None \<Rightarrow> None)
          else Some 0)"

definition applyMelFilterbank :: "real list \<Rightarrow> MelFilter list \<Rightarrow> real option list" where
  "applyMelFilterbank fftData filterbank = map (melValue fftData) filterbank"

section \<open>Reactive theme controller (audio/ReactiveThemeController.ts)\<close>

text \<open>
  The controller's fields, and the feature sample it is sent. \<open>processAudioData\<close> returns the
  new controller and the colour customizations it hands to \<open>config.update\<close>, in the order
  of the object literal; \<^const>\<open>None\<close> when it returns early without an update.
\<close>

record controller =
  baseColors :: "(string \<times> string) list"
  isActive :: bool
  smoothingFactor :: real
  lastHue :: real
  lastSaturation :: real
  lastBrightness :: real

record AudioAnalysisData =
  energy :: real
  isBeat :: bool
  brightness :: real
  spectralCentroid :: real
  dominantFreq :: real
  timestamp :: real

definition newController :: controller where
  "newController =
     \<lparr>baseColors = [], isActive = False, smoothingFactor = 3 / 10,
      lastHue = 0, lastSaturation = 50, lastBrightness = 50\<rparr>"

text \<open>\<open>activate\<close> snapshots the customizations currently in the settings (its argument).\<close>

definition activate :: "controller \<Rightarrow> (string \<times> string) list \<Rightarrow> controller" where
  "activate st customizations =
     (if isActive st then st else st\<lparr>isActive := True, baseColors := customizations\<rparr>)"

definition smooth :: "real \<Rightarrow> real \<Rightarrow> real \<Rightarrow> real" where
  "smooth current target factor = current + (target - current) * factor"

definition processAudioData ::
  "'c tinycolor_lib \<Rightarrow> controller \<Rightarrow> AudioAnalysisData
     \<Rightarrow> controller \<times> (string \<times> string) list option" where
  "processAudioData lib st data =
     (if \<not> isActive st then (st, None)
      else
        let targetHue = real_of_int \<lfloor>dominantFreq data * 360\<rfloor>;
            targetSaturation = 40 + energy data * 60;
            targetBrightness = 30 + spectralCentroid data * 40;
            st = st\<lparr>lastHue := smooth (lastHue st) targetHue (smoothingFactor st)\<rparr>;
            st = st\<lparr>lastSaturation :=
                      smooth (lastSaturation st) targetSaturation (smoothingFactor st)\<rparr>;
            st = st\<lparr>lastBrightness :=
                      smooth (lastBrightness st) targetBrightness (smoothingFactor st)\<rparr>;
            baseColor = fromHsl lib
              \<lparr>hsl_h = lastHue st, hsl_s = lastSaturation st, hsl_l = lastBrightness st\<rparr>;
            beatBoost = (if isBeat data then 15 else 0);
            editorBg = toHexString lib (darken lib baseColor (25 - beatBoost));
            sidebarBg = toHexString lib (spin lib (darken lib baseColor 30) 30);
            accentColor =
              toHexString lib (saturate lib (lighten lib baseColor (20 + beatBoost)) 20);
            selectionBg = toHexString lib (setAlpha lib baseColor (3 / 10));
            complementary = spin lib baseColor 180;
            highlightColor = toHexString lib (lighten lib complementary (30 + beatBoost));
            analogous1 = lighten lib (spin lib baseColor 30) 10;
            analogous2 = lighten lib (spin lib baseColor (- 30)) 10;
            colorCustomizations =
              [(''editor.background'', editorBg),
               (''editor.selectionBackground'', selectionBg),
               (''editor.lineHighlightBackground'',
                  toHexString lib (setAlpha lib (darken lib baseColor 20) (1 / 10))),
               (''editorCursor.foreground'', accentColor),
               (''editor.findMatchHighlightBackground'', highlightColor),
               (''sideBar.background'', sidebarBg),
               (''sideBarSectionHeader.background'', toHexString lib (darken lib baseColor 35)),
               (''activityBar.background'', toHexString lib (darken lib baseColor 35)),
               (''activityBar.activeBorder'', accentColor),
               (''activityBar.foreground'', accentColor),
               (''statusBar.background'',
                  if isBeat data then accentColor else toHexString lib (darken lib baseColor 30)),
               (''statusBar.foreground'',
                  if isBeat data then ''#000000''
                  else toHexString lib (lighten lib baseColor 40)),
               (''terminal.ansiBlue'', toHexString lib analogous1),
               (''terminal.ansiMagenta'', toHexString lib analogous2),
               (''terminal.ansiCyan'', toHexString lib (lighten lib baseColor 20)),
               (''chat.requestBackground'',
                  toHexString lib (setAlpha lib (darken lib baseColor 20) (2 / 10))),
               (''chat.slashCommandBackground'', accentColor @ ''33''),
               (''notificationCenter.border'', accentColor),
               (''notifications.background'', sidebarBg),
               (''list.activeSelectionBackground'', toHexString lib (darken lib baseColor 15)),
               (''list.hoverBackground'',
                  toHexString lib (setAlpha lib (darken lib baseColor 22) (5 / 10))),
               (''list.focusOutline'', accentColor)]
        in (st, Some colorCustomizations))"

section \<open>A small implementation of the library interface\<close>

text \<open>
  To show the theorems at concrete colours, the interface is implemented for six-digit
  lower-case hex strings: a colour object holds a validity flag and three channels in
  \<open>[0, 255]\<close>; hue, saturation and lightness follow the usual HSL formulas, with the hue in
  degrees, and \<open>fromHsl\<close> takes saturation and lightness in percent. The alpha channel does
  not show in a six-digit hex string and is not kept.
\<close>

datatype rcolor = Rcolor bool real real real

definition hexDigits :: string where
  "hexDigits = ''0123456789abcdef''"

definition hexVal :: "char \<Rightarrow> nat option" where
  "hexVal c = map_of (zip hexDigits [0, 1, 2, 3, 4, 5, 6, 7, 8, 9, 10, 11, 12, 13, 14, 15]) c"

definition hexByte :: "char \<Rightarrow> char \<Rightarrow> real option" where
  "hexByte a b = (case (hexVal a, hexVal b) of
      (Some x, Some y) \<Rightarrow> Some (real (16 * x + y)) | _ \<Rightarrow> None)"

definition ref_parse :: "string \<Rightarrow> rcolor" where
  "ref_parse str = (case str of
      [c0, r1, r0, g1, g0, b1, b0] \<Rightarrow>
        (case (c0 = CHR ''#'', hexByte r1 r0, hexByte g1 g0, hexByte b1 b0) of
           (True, Some r, Some g, Some b) \<Rightarrow> Rcolor True r g b
         | _ \<Rightarrow> Rcolor False 0 0 0)
    | _ \<Rightarrow> Rcolor False 0 0 0)"

fun ref_isValid :: "rcolor \<Rightarrow> bool" where
  "ref_isValid (Rcolor ok r g b) = ok"

definition hex2 :: "real \<Rightarrow> string" where
  "hex2 x = (let n = nat (min 255 (max 0 (round x)))
             in [hexDigits ! (n div 16), hexDigits ! (n mod 16)])"

fun ref_toHexString :: "rcolor \<Rightarrow> string" where
  "ref_toHexString (Rcolor ok r g b) = CHR ''#'' # hex2 r @ hex2 g @ hex2 b"

fun ref_toHsl :: "rcolor \<Rightarrow> hsl" where
  "ref_toHsl (Rcolor ok r255 g255 b255) =
     (let r = r255 / 255; g = g255 / 255; b = b255 / 255;
          mx = max r (max g b); mn = min r (min g b);
          l = (mx + mn) / 2
      in if mx = mn then \<lparr>hsl_h = 0, hsl_s = 0, hsl_l = l\<rparr>
         else
           let d = mx - mn;
               s = (if l > 1 / 2 then d / (2 - mx - mn) else d / (mx + mn));
               h = (if mx = r then (g - b) / d + (if g < b then 6 else 0)
                    else if mx = g then (b - r) / d + 2
                    else (r - g) / d + 4)
           in \<lparr>hsl_h = h / 6 * 360, hsl_s = s, hsl_l = l\<rparr>)"

definition hue2rgb :: "real \<Rightarrow> real \<Rightarrow> real \<Rightarrow> real" where
  "hue2rgb p q t0 =
     (let t = (if t0 < 0 then t0 + 1 else t0);
          t = (if t > 1 then t - 1 else t)
      in if t < 1 / 6 then p + (q - p) * 6 * t
         else if t < 1 / 2 then q
         else if t < 2 / 3 then p + (q - p) * (2 / 3 - t) * 6
         else p)"

definition clamp01 :: "real \<Rightarrow> real" where
  "clamp01 x = min 1 (max 0 x)"

definition ref_fromHsl :: "hsl \<Rightarrow> rcolor" where
  "ref_fromHsl x =
     (let h = min 360 (max 0 (hsl_h x)) / 360;
          s = clamp01 (hsl_s x / 100);
          l = clamp01 (hsl_l x / 100)
      in if s = 0 then Rcolor True (l * 255) (l * 255) (l * 255)
         else
           let q = (if l < 1 / 2 then l * (1 + s) else l + s - l * s);
               p = 2 * l - q
           in Rcolor True (hue2rgb p q (h + 1 / 3) * 255) (hue2rgb p q h * 255)
                (hue2rgb p q (h - 1 / 3) * 255))"

definition viaHsl :: "(hsl \<Rightarrow> hsl) \<Rightarrow> rcolor \<Rightarrow> rcolor" where
  "viaHsl f c =
     (let x = f (ref_toHsl c)
      in ref_fromHsl \<lparr>hsl_h = hsl_h x, hsl_s = hsl_s x * 100, hsl_l = hsl_l x * 100\<rparr>)"

definition ref_spin :: "rcolor \<Rightarrow> real \<Rightarrow> rcolor" where
  "ref_spin c amount =
     viaHsl (\<lambda>x. x\<lparr>hsl_h := hsl_h x + amount
                               - 360 * real_of_int \<lfloor>(hsl_h x + amount) / 360\<rfloor>\<rparr>) c"

definition ref_darken :: "rcolor \<Rightarrow> real \<Rightarrow> rcolor" where
  "ref_darken c amount = viaHsl (\<lambda>x. x\<lparr>hsl_l := clamp01 (hsl_l x - amount / 100)\<rparr>) c"

definition ref_lighten :: "rcolor \<Rightarrow> real \<Rightarrow> rcolor" where
  "ref_lighten c amount = viaHsl (\<lambda>x. x\<lparr>hsl_l := clamp01 (hsl_l x + amount / 100)\<rparr>) c"

definition ref_saturate :: "rcolor \<Rightarrow> real \<Rightarrow> rcolor" where
  "ref_saturate c amount = viaHsl (\<lambda>x. x\<lparr>hsl_s := clamp01 (hsl_s x + amount / 100)\<rparr>) c"

fun ref_mix :: "rcolor \<Rightarrow> rcolor \<Rightarrow> real \<Rightarrow> rcolor" where
  "ref_mix (Rcolor ok1 r1 g1 b1) (Rcolor ok2 r2 g2 b2) amount =
     (let p = amount / 100
      in Rcolor True ((r2 - r1) * p + r1) ((g2 - g1) * p + g1) ((b2 - b1) * p + b1))"

text \<open>
  \<open>analogous()\<close> with the library's default arguments (6 results, 30 slices): the colour
  itself, then five colours whose hues start 24 degrees below the colour's hue and advance
  in steps of \<open>360 / 30 = 12\<close> degrees, each hue taken modulo 360.
\<close>

definition hueMod :: "real \<Rightarrow> real" where
  "hueMod x = x - 360 * real_of_int \<lfloor>x / 360\<rfloor>"

definition ref_analogous :: "rcolor \<Rightarrow> rcolor list" where
  "ref_analogous c =
     (let x = ref_toHsl c;
          part = 360 / 30;
          h0 = hueMod (hsl_h x - 36 + 720);
          h1 = hueMod (h0 + part);
          h2 = hueMod (h1 + part);
          h3 = hueMod (h2 + part);
          h4 = hueMod (h3 + part);
          h5 = hueMod (h4 + part)
      in c # map (\<lambda>h. ref_fromHsl \<lparr>hsl_h = h, hsl_s = hsl_s x * 100, hsl_l = hsl_l x * 100\<rparr>)
               [h1, h2, h3, h4, h5])"

definition ref_lib :: "rcolor tinycolor_lib" where
  "ref_lib =
     \<lparr>parse = ref_parse, isValid = ref_isValid, toHsl = ref_toHsl, fromHsl = ref_fromHsl,
      spin = ref_spin, darken = ref_darken, lighten = ref_lighten, saturate = ref_saturate,
      setAlpha = (\<lambda>c a. c), mix = ref_mix, analogous = ref_analogous,
      toHexString = ref_toHexString\<rparr>"

section \<open>Definitions used in the statements and proofs\<close>

text \<open>
  The arc \<open>interpolateHue\<close> walks along: the difference of the two hues, moved by one turn
  when it is longer than half a turn.
\<close>

definition shortArc :: "real \<Rightarrow> real \<Rightarrow> real" where
  "shortArc start end' =
     (let diff = end' - start
      in if diff > 180 then diff - 360 else if diff < - 180 then diff + 360 else diff)"

text \<open>
  The \<open>k\<close>-th of the equally spaced mel edges of \<open>createMelFilterbank\<close>, and its FFT bin:
  filter \<open>i\<close> has the bins of the edges \<open>i\<close>, \<open>i + 1\<close> and \<open>i + 2\<close>.
\<close>

definition melEdge :: "int \<Rightarrow> real \<Rightarrow> nat \<Rightarrow> real" where
  "melEdge numFilters sampleRate k =
     hzToMel 0 + real k * ((hzToMel (sampleRate / 2) - hzToMel 0) / (real_of_int numFilters + 1))"

definition edgeBin :: "int \<Rightarrow> int \<Rightarrow> real \<Rightarrow> nat \<Rightarrow> int" where
  "edgeBin numFilters fftSize sampleRate k =
     \<lfloor>melToHz (melEdge numFilters sampleRate k) / (sampleRate / real_of_int fftSize)\<rfloor>"

text \<open>The keys of the object literal that \<open>processAudioData\<close> builds, in its order.\<close>

definition paletteKeys :: "string list" where
  "paletteKeys =
     [''editor.background'', ''editor.selectionBackground'', ''editor.lineHighlightBackground'',
      ''editorCursor.foreground'', ''editor.findMatchHighlightBackground'',
      ''sideBar.background'', ''sideBarSectionHeader.background'',
      ''activityBar.background'', ''activityBar.activeBorder'', ''activityBar.foreground'',
      ''statusBar.background'', ''statusBar.foreground'',
      ''terminal.ansiBlue'', ''terminal.ansiMagenta'', ''terminal.ansiCyan'',
      ''chat.requestBackground'', ''chat.slashCommandBackground'',
      ''notificationCenter.border'', ''notifications.background'',
      ''list.activeSelectionBackground'', ''list.hoverBackground'', ''list.focusOutline'']"

text \<open>
  A colour string of the palette: \<open>#\<close> and six hex digits, or \<open>#\<close> and eight hex digits
  (with an alpha suffix). \<open>isHex6\<close> is the first form alone, as \<open>toHexString\<close> makes it.
\<close>

definition isHexDigit :: "char \<Rightarrow> bool" where
  "isHexDigit c = (c \<in> set ''0123456789abcdefABCDEF'')"

definition isHex6 :: "string \<Rightarrow> bool" where
  "isHex6 s = (case s of [] \<Rightarrow> False
     | c # ds \<Rightarrow> c = CHR ''#'' \<and> length ds = 6 \<and> list_all isHexDigit ds)"

definition isHexColor :: "string \<Rightarrow> bool" where
  "isHexColor s = (case s of [] \<Rightarrow> False
     | c # ds \<Rightarrow> c = CHR ''#'' \<and> (length ds = 6 \<or> length ds = 8) \<and> list_all isHexDigit ds)"

text \<open>
  The program's own filterbank is \<open>createMelFilterbank 128 2048 44100\<close>. Its mel edges in
  Hz are \<open>700 * (melRatio ^ k - 1)\<close> and in FFT bins \<open>progEdge k\<close>, since
  \<open>1 + 44100 / 1400 = 65 / 2\<close> and \<open>700 * 2048 / 44100 = 14336 / 441\<close>.
\<close>

definition melRatio :: real where
  "melRatio = (65 / 2) powr (1 / 129)"

definition progEdge :: "nat \<Rightarrow> real" where
  "progEdge k = 14336 / 441 * (melRatio ^ k - 1)"

text \<open>A feature sample whose energy is far above 1.\<close>

definition loudSample :: AudioAnalysisData where
  "loudSample = \<lparr>energy = 10, isBeat = False, brightness = 0, spectralCentroid = 0,
                 dominantFreq = 0, timestamp = 0\<rparr>"

text \<open>
  The four scalar maps that \<open>rgbToLab\<close> and \<open>labToRgb\<close> apply to each channel (sRGB to
  linear and back, the Lab companding map and its inverse), and the final scaling, rounding
  and clamping of a channel.
\<close>

definition gammaExpand :: "real \<Rightarrow> real" where
  "gammaExpand u = (if u > 0.04045 then ((u + 0.055) / 1.055) powr 2.4 else u / 12.92)"

definition gammaCompress :: "real \<Rightarrow> real" where
  "gammaCompress v = (if v > 0.0031308 then 1.055 * v powr (1 / 2.4) - 0.055 else 12.92 * v)"

definition labF :: "real \<Rightarrow> real" where
  "labF t = (if t > 0.008856 then t powr (1 / 3) else (7.787 * t) + 16 / 116)"

definition labFinv :: "real \<Rightarrow> real" where
  "labFinv x = (if x * x * x > 0.008856 then x * x * x else (x - 16 / 116) / 7.787)"

definition toByte :: "real \<Rightarrow> real" where
  "toByte v = real_of_int (max 0 (min 255 (round (v * 255))))"

section \<open>Beat detection: proofs\<close>

lemma foldl_add_replicate:
  "foldl (+) a (replicate n (e::real)) = a + real n * e"
  by (induction n arbitrary: a) (simp_all add: algebra_simps)

lemma detectBeat_level:
  assumes "history bd = replicate n e" and "n < 43" and "0 \<le> e" and "threshold bd = 13 / 10"
  shows "detectBeat bd e = (bd\<lparr>history := replicate (Suc n) e\<rparr>, False)"
proof -
  let ?h = "replicate (Suc n) e"
  have pushed: "history bd @ [e] = ?h"
    using assms(1) by (simp add: replicate_append_same)
  have len: "length ?h = Suc n" by simp
  have keep: "(if length ?h > 43 then tl ?h else ?h) = ?h"
    using assms(2) unfolding len by simp
  have "foldl (+) 0 ?h = real (Suc n) * e"
    unfolding foldl_add_replicate by simp
  then have avg: "foldl (+) 0 ?h / real (length ?h) = e"
    unfolding len by simp
  have no: "(e > e * (13 / 10)) = False" using assms(3) by simp
  show ?thesis
    unfolding detectBeat_def pushed Let_def keep avg assms(4) no ..
qed

lemma feed_level:
  assumes "history bd = replicate n e" and "n + m \<le> 43" and "0 \<le> e" and "threshold bd = 13 / 10"
  shows "feed bd (replicate m e) = (bd\<lparr>history := replicate (n + m) e\<rparr>, replicate m False)"
  using assms
proof (induction m arbitrary: bd n)
  case 0
  then show ?case by simp
next
  case (Suc m)
  let ?bd = "bd\<lparr>history := replicate (Suc n) e\<rparr>"
  have step: "detectBeat bd e = (?bd, False)"
    using Suc.prems by (intro detectBeat_level) simp_all
  have rest: "feed ?bd (replicate m e) =
      (?bd\<lparr>history := replicate (Suc n + m) e\<rparr>, replicate m False)"
    using Suc.prems by (intro Suc.IH) simp_all
  have "feed bd (replicate (Suc m) e) = feed bd (e # replicate m e)" by simp
  also have "\<dots> = (?bd\<lparr>history := replicate (Suc n + m) e\<rparr>, False # replicate m False)"
    by (simp only: feed.simps step rest prod.case)
  also have "\<dots> = (bd\<lparr>history := replicate (n + Suc m) e\<rparr>, replicate (Suc m) False)"
    by simp
  finally show ?case .
qed

lemma feed_append:
  "feed bd (xs @ ys) =
     (case feed bd xs of (bd', bs) \<Rightarrow> (case feed bd' ys of (bd'', cs) \<Rightarrow> (bd'', bs @ cs)))"
  by (induction xs arbitrary: bd) (simp_all split: prod.splits)

text \<open>
  C7. Fed 42 energy samples at 0.2 and then one at 0.5, the detector reports no beat on
  each of the 42 low samples and a beat on the spike; and in every state the flag is exactly
  "the energy exceeds the mean of the rolling buffer (new sample included) times the
  threshold".
\<close>

theorem beat_only_on_spike:
  "snd (feed initialBeatDetector (replicate 42 (1 / 5) @ [1 / 2])) = replicate 42 False @ [True]
   \<and> snd (detectBeat bd e) =
       (e > foldl (+) 0 (history (fst (detectBeat bd e)))
                   / real (length (history (fst (detectBeat bd e)))) * threshold bd)"
proof
  let ?bd = "initialBeatDetector\<lparr>history := replicate 42 (1 / 5)\<rparr>"
  have low: "feed initialBeatDetector (replicate 42 (1 / 5)) = (?bd, replicate 42 False)"
    using feed_level [of initialBeatDetector 0 "1 / 5" 42]
    by (simp add: initialBeatDetector_def)
  let ?h = "history ?bd @ [1 / 2]"
  have len: "length ?h = 43" by simp
  have keep: "(if length ?h > 43 then tl ?h else ?h) = ?h"
    unfolding len by simp
  have "foldl (+) 0 ?h = foldl (+) 0 (replicate 42 (1 / 5)) + 1 / 2"
    by simp
  then have sum: "foldl (+) 0 ?h = 42 * (1 / 5) + 1 / 2"
    unfolding foldl_add_replicate by simp
  have thr: "threshold ?bd = 13 / 10"
    by (simp add: initialBeatDetector_def)
  have spike: "snd (detectBeat ?bd (1 / 2)) = True"
    unfolding detectBeat_def Let_def keep unfolding sum len thr by simp
  show "snd (feed initialBeatDetector (replicate 42 (1 / 5) @ [1 / 2])) = replicate 42 False @ [True]"
    using spike by (cases "detectBeat ?bd (1 / 2)") (simp add: feed_append low)
next
  show "snd (detectBeat bd e) =
       (e > foldl (+) 0 (history (fst (detectBeat bd e)))
                   / real (length (history (fst (detectBeat bd e)))) * threshold bd)"
    by (simp add: detectBeat_def Let_def)
qed

section \<open>Temperature shift: proofs\<close>

lemma shortArc_bound:
  assumes "0 \<le> start" "start < 360" "0 \<le> end'" "end' < 360"
  shows "\<bar>shortArc start end'\<bar> \<le> 180"
  using assms unfolding shortArc_def Let_def by (auto simp: abs_le_iff)

lemma shortArc_turns:
  "\<exists>m::int. shortArc start end' = end' - start + 360 * real_of_int m"
proof -
  consider "end' - start > 180" | "\<not> end' - start > 180" "end' - start < - 180"
    | "\<not> end' - start > 180" "\<not> end' - start < - 180" by blast
  then show ?thesis
  proof cases
    case 1
    then have "shortArc start end' = end' - start + 360 * real_of_int (- 1)"
      by (simp add: shortArc_def Let_def)
    then show ?thesis by blast
  next
    case 2
    then have "shortArc start end' = end' - start + 360 * real_of_int 1"
      by (simp add: shortArc_def Let_def)
    then show ?thesis by blast
  next
    case 3
    then have "shortArc start end' = end' - start + 360 * real_of_int 0"
      by (simp add: shortArc_def Let_def)
    then show ?thesis by blast
  qed
qed

lemma interpolateHue_range:
  assumes "0 \<le> start" "start < 360" "0 \<le> end'" "end' < 360" "0 \<le> t" "t \<le> 1"
  shows "0 \<le> interpolateHue start end' t \<and> interpolateHue start end' t < 360"
proof -
  let ?d = "shortArc start end'"
  have d: "\<bar>?d\<bar> \<le> 180" using assms by (intro shortArc_bound)
  have "\<bar>?d * t\<bar> \<le> 180"
  proof -
    have "\<bar>?d * t\<bar> = \<bar>?d\<bar> * t" using assms(5) by (simp add: abs_mult)
    also have "\<dots> \<le> \<bar>?d\<bar> * 1" using assms(6) by (intro mult_left_mono) simp_all
    finally show ?thesis using d by simp
  qed
  then have r: "- 180 \<le> start + ?d * t" "start + ?d * t < 540"
    using assms(1,2) by linarith+
  have "interpolateHue start end' t =
      (let result = start + ?d * t;
           result = (if result < 0 then result + 360 else result)
       in if result \<ge> 360 then result - 360 else result)"
    by (simp add: interpolateHue_def shortArc_def Let_def)
  then show ?thesis using r by (simp add: Let_def)
qed

lemma interpolateHue_along:
  assumes "0 \<le> start" "start < 360" "0 \<le> end'" "end' < 360" "0 \<le> t" "t \<le> 1"
  shows "\<exists>k::int. interpolateHue start end' t = start + shortArc start end' * t + 360 * real_of_int k"
proof -
  let ?r = "start + shortArc start end' * t"
  have eq: "interpolateHue start end' t =
      (let result = (if ?r < 0 then ?r + 360 else ?r)
       in if result \<ge> 360 then result - 360 else result)"
    by (simp add: interpolateHue_def shortArc_def Let_def)
  consider "?r < 0" | "0 \<le> ?r" "?r < 360" | "360 \<le> ?r" by linarith
  then show ?thesis
  proof cases
    case 1
    have "- 180 \<le> ?r"
    proof -
      have "\<bar>shortArc start end'\<bar> \<le> 180" using assms by (intro shortArc_bound)
      moreover have "\<bar>shortArc start end' * t\<bar> \<le> \<bar>shortArc start end'\<bar> * 1"
        unfolding abs_mult using assms(5,6) by (intro mult_left_mono) simp_all
      ultimately show ?thesis using assms(1) by linarith
    qed
    with 1 have "interpolateHue start end' t = ?r + 360 * real_of_int 1"
      unfolding eq by (simp add: Let_def)
    then show ?thesis by blast
  next
    case 2
    then have "interpolateHue start end' t = ?r + 360 * real_of_int 0"
      unfolding eq by (simp add: Let_def)
    then show ?thesis by blast
  next
    case 3
    then have "interpolateHue start end' t = ?r + 360 * real_of_int (- 1)"
      unfolding eq by (simp add: Let_def)
    then show ?thesis by blast
  qed
qed

text \<open>
  C1. For a valid colour whose hue the library reports in \<open>[0, 360)\<close> and a nonzero amount in
  \<open>[-100, 100]\<close>, \<open>adjustTemperature\<close> rebuilds the colour with the same saturation and
  lightness and a hue \<open>hue'\<close> in \<open>[0, 360)\<close> that lies, up to whole turns, at the fraction
  \<open>|amount| / 100\<close> of an arc from the old hue to the target (30 for a positive amount, 210
  for a negative one); the arc is at most half a turn long, so it is a shortest one. From
  hue 350 toward 30 at amount 50 the hue is 10.
\<close>

theorem adjustTemperature_shortest_arc:
  assumes "isValid lib (parse lib color)"
    and "0 \<le> hsl_h (toHsl lib (parse lib color))"
    and "hsl_h (toHsl lib (parse lib color)) < 360"
    and "amount \<noteq> 0" and "- 100 \<le> amount" and "amount \<le> 100"
  shows "(\<exists>hue' arc.
      adjustTemperature lib color amount =
        Some (toHexString lib (fromHsl lib
          \<lparr>hsl_h = hue',
           hsl_s = hsl_s (toHsl lib (parse lib color)) * 100,
           hsl_l = hsl_l (toHsl lib (parse lib color)) * 100\<rparr>))
      \<and> 0 \<le> hue' \<and> hue' < 360
      \<and> \<bar>arc\<bar> \<le> 180
      \<and> (\<exists>m::int. arc = (if amount > 0 then 30 else 210) - hsl_h (toHsl lib (parse lib color))
                         + 360 * real_of_int m)
      \<and> (\<exists>k::int. hue' = hsl_h (toHsl lib (parse lib color)) + arc * (\<bar>amount\<bar> / 100)
                         + 360 * real_of_int k))
      \<and> interpolateHue 350 30 (50 / 100) = 10"
proof -
  let ?h = "hsl_h (toHsl lib (parse lib color))"
  let ?target = "if amount > 0 then 30 else 210 :: real"
  let ?t = "\<bar>amount\<bar> / 100"
  let ?hue = "interpolateHue ?h ?target ?t"
  have t: "0 \<le> ?t" "?t \<le> 1" using assms(5,6) by simp_all
  have target: "0 \<le> ?target" "?target < 360" by simp_all
  have run: "adjustTemperature lib color amount =
      Some (toHexString lib (fromHsl lib
        \<lparr>hsl_h = ?hue,
         hsl_s = hsl_s (toHsl lib (parse lib color)) * 100,
         hsl_l = hsl_l (toHsl lib (parse lib color)) * 100\<rparr>))"
    using assms(1) by (simp add: adjustTemperature_def Let_def)
  have range: "0 \<le> ?hue \<and> ?hue < 360"
    using assms(2,3) target t by (intro interpolateHue_range)
  have arc: "\<bar>shortArc ?h ?target\<bar> \<le> 180"
    using assms(2,3) target by (intro shortArc_bound)
  have turns: "\<exists>m::int. shortArc ?h ?target = ?target - ?h + 360 * real_of_int m"
    by (rule shortArc_turns)
  have along: "\<exists>k::int. ?hue = ?h + shortArc ?h ?target * ?t + 360 * real_of_int k"
    using assms(2,3) target t by (intro interpolateHue_along)
  have ex: "interpolateHue 350 30 (50 / 100) = 10"
    by (simp add: interpolateHue_def Let_def)
  show ?thesis
    using run range arc turns along ex by blast
qed

section \<open>Evaluating the small library implementation\<close>

lemmas parse_eval = ref_lib_def ref_parse_def hexByte_def hexVal_def hexDigits_def

lemma hex2_00: "hex2 0 = ''00''"
  by (simp add: hex2_def hexDigits_def Let_def)

lemma hex2_80: "hex2 (255 / 2) = ''80''"
  by (simp add: hex2_def hexDigits_def Let_def round_def)

lemma hex2_ff: "hex2 255 = ''ff''"
  by (simp add: hex2_def hexDigits_def Let_def)









lemma hex2_40: "hex2 (255 / 4) = ''40''"
  by (simp add: hex2_def hexDigits_def Let_def round_def)

section \<open>Temperature shift at a concrete colour\<close>

text \<open>
  C1, at a concrete input: \<open>#ff032d\<close> has hue 350; warmed by 50 it becomes \<open>#ff2d03\<close>,
  whose hue is 10.
\<close>

theorem adjustTemperature_shortest_arc_witness:
  "isValid ref_lib (parse ref_lib ''#ff032d'')
   \<and> hsl_h (toHsl ref_lib (parse ref_lib ''#ff032d'')) = 350
   \<and> adjustTemperature ref_lib ''#ff032d'' 50 = Some ''#ff2d03''
   \<and> (\<exists>hue' arc.
        adjustTemperature ref_lib ''#ff032d'' 50 =
          Some (toHexString ref_lib (fromHsl ref_lib
            \<lparr>hsl_h = hue', hsl_s = 100, hsl_l = 860 / 17\<rparr>))
        \<and> 0 \<le> hue' \<and> hue' < 360 \<and> \<bar>arc\<bar> \<le> 180
        \<and> (\<exists>m::int. arc = 30 - 350 + 360 * real_of_int m)
        \<and> (\<exists>k::int. hue' = 350 + arc * (50 / 100) + 360 * real_of_int k))"
proof -
  have p: "parse ref_lib ''#ff032d'' = Rcolor True 255 3 45"
    by (simp add: parse_eval)
  have v: "isValid ref_lib (parse ref_lib ''#ff032d'')"
    unfolding p by (simp add: ref_lib_def)
  have x: "toHsl ref_lib (parse ref_lib ''#ff032d'') = \<lparr>hsl_h = 350, hsl_s = 1, hsl_l = 43 / 85\<rparr>"
    unfolding p by (simp add: ref_lib_def Let_def)
  have h: "hsl_h (toHsl ref_lib (parse ref_lib ''#ff032d'')) = 350"
    unfolding x by simp
  have run: "adjustTemperature ref_lib ''#ff032d'' 50 = Some ''#ff2d03''"
    unfolding adjustTemperature_def Let_def x using v
    by (simp add: interpolateHue_def)
       (simp add: ref_lib_def ref_fromHsl_def clamp01_def hue2rgb_def hex2_def hexDigits_def
          round_def Let_def)
  have "\<exists>hue' arc.
        adjustTemperature ref_lib ''#ff032d'' 50 =
          Some (toHexString ref_lib (fromHsl ref_lib
            \<lparr>hsl_h = hue', hsl_s = 100, hsl_l = 860 / 17\<rparr>))
        \<and> 0 \<le> hue' \<and> hue' < 360 \<and> \<bar>arc\<bar> \<le> 180
        \<and> (\<exists>m::int. arc = 30 - 350 + 360 * real_of_int m)
        \<and> (\<exists>k::int. hue' = 350 + arc * (50 / 100) + 360 * real_of_int k)"
    using adjustTemperature_shortest_arc [of ref_lib "''#ff032d''" 50] v
    unfolding x by simp
  then show ?thesis using v h run by blast
qed

section \<open>Analogous colours\<close>




section \<open>Filterbank construction and its arguments\<close>

text \<open>
  C5 (as the code has it). \<open>createMelFilterbank\<close> checks none of its arguments: it returns
  exactly \<open>numFilters\<close> filters (none when \<open>numFilters < 1\<close>) whatever \<open>fftSize\<close> and
  \<open>sampleRate\<close> are, so the result is empty exactly when \<open>numFilters < 1\<close>.
\<close>

theorem createMelFilterbank_length:
  "length (createMelFilterbank numFilters fftSize sampleRate) = nat numFilters
   \<and> (createMelFilterbank numFilters fftSize sampleRate = []) = (numFilters < 1)"
proof -
  have len: "length (createMelFilterbank numFilters fftSize sampleRate) = nat numFilters"
    by (simp add: createMelFilterbank_def Let_def)
  have "(createMelFilterbank numFilters fftSize sampleRate = [])
      = (length (createMelFilterbank numFilters fftSize sampleRate) = 0)" by simp
  also have "\<dots> = (numFilters < 1)" unfolding len by auto
  finally show ?thesis using len by simp
qed

text \<open>
  C5 as stated fails: with \<open>fftSize = 1\<close> (below 2), and with \<open>sampleRate = -1\<close> (not
  positive), the filterbank is not empty.
\<close>

theorem createMelFilterbank_no_validation:
  "createMelFilterbank 1 1 44100 \<noteq> [] \<and> createMelFilterbank 128 2048 (- 1) \<noteq> []"
  by (simp add: createMelFilterbank_def Let_def)

section \<open>Beats and the smoothing state\<close>

text \<open>
  C10. Whatever the controller and the feature sample, the controller after
  \<open>processAudioData\<close> (its smoothed hue, saturation and lightness with it) is the same
  whether the sample's \<open>isBeat\<close> flag is set or not: the beat boost only enters the colours
  of that frame.
\<close>

theorem beat_leaves_smoothing_state:
  "fst (processAudioData lib st (data\<lparr>isBeat := True\<rparr>))
     = fst (processAudioData lib st (data\<lparr>isBeat := False\<rparr>))"
  by (simp add: processAudioData_def Let_def)

section \<open>Filterbank geometry\<close>

lemma createMelFilterbank_nth:
  assumes "i < nat numFilters"
  shows "createMelFilterbank numFilters fftSize sampleRate ! i =
     \<lparr>leftBin = edgeBin numFilters fftSize sampleRate i,
      centerBin = edgeBin numFilters fftSize sampleRate (Suc i),
      rightBin = edgeBin numFilters fftSize sampleRate (Suc (Suc i))\<rparr>"
  using assms
  by (simp add: createMelFilterbank_def Let_def edgeBin_def melEdge_def add_ac)

lemma createMelFilterbank_len:
  "length (createMelFilterbank numFilters fftSize sampleRate) = nat numFilters"
  by (simp add: createMelFilterbank_def Let_def)

lemma hzToMel_zero: "hzToMel 0 = 0"
  by (simp add: hzToMel_def)

lemma hzToMel_nonneg: "0 \<le> hz \<Longrightarrow> 0 \<le> hzToMel hz"
  by (simp add: hzToMel_def)

lemma melToHz_mono: "a \<le> b \<Longrightarrow> melToHz a \<le> melToHz b"
proof -
  assume "a \<le> b"
  then have "a / 2595 \<le> b / 2595" by simp
  then have "(10::real) powr (a / 2595) \<le> 10 powr (b / 2595)"
    by (intro powr_mono) simp_all
  then show ?thesis by (simp add: melToHz_def)
qed

lemma melEdge_mono:
  assumes "0 \<le> numFilters" "0 \<le> sampleRate" "j \<le> k"
  shows "melEdge numFilters sampleRate j \<le> melEdge numFilters sampleRate k"
proof -
  have "0 \<le> hzToMel (sampleRate / 2)" using assms(2) by (intro hzToMel_nonneg) simp
  then have step: "0 \<le> (hzToMel (sampleRate / 2) - hzToMel 0) / (real_of_int numFilters + 1)"
    using assms(1) by (simp add: hzToMel_zero)
  have "real j \<le> real k" using assms(3) by simp
  then have "real j * ((hzToMel (sampleRate / 2) - hzToMel 0) / (real_of_int numFilters + 1))
      \<le> real k * ((hzToMel (sampleRate / 2) - hzToMel 0) / (real_of_int numFilters + 1))"
    using step by (rule mult_right_mono)
  then show ?thesis
    unfolding melEdge_def by (rule add_left_mono)
qed

lemma edgeBin_mono:
  assumes "0 \<le> numFilters" "0 < fftSize" "0 < sampleRate" "j \<le> k"
  shows "edgeBin numFilters fftSize sampleRate j \<le> edgeBin numFilters fftSize sampleRate k"
proof -
  have w: "0 < sampleRate / real_of_int fftSize" using assms(2,3) by simp
  have "melToHz (melEdge numFilters sampleRate j) \<le> melToHz (melEdge numFilters sampleRate k)"
    using assms by (intro melToHz_mono melEdge_mono) simp_all
  then have "melToHz (melEdge numFilters sampleRate j) / (sampleRate / real_of_int fftSize)
      \<le> melToHz (melEdge numFilters sampleRate k) / (sampleRate / real_of_int fftSize)"
    using w by (intro divide_right_mono) simp_all
  then show ?thesis unfolding edgeBin_def by (rule floor_mono)
qed

text \<open>
  C8. For \<open>numFilters \<ge> 1\<close>, \<open>fftSize \<ge> 2\<close> and \<open>sampleRate > 0\<close>, every filter of the
  filterbank has \<open>leftBin \<le> centerBin \<le> rightBin\<close>, and the \<open>centerBin\<close> of each filter is at
  most that of the next one (the list of centre bins is sorted).
\<close>

theorem filterbank_bins_ordered:
  assumes "1 \<le> numFilters" and "2 \<le> fftSize" and "0 < sampleRate"
  shows "(\<forall>f \<in> set (createMelFilterbank numFilters fftSize sampleRate).
            leftBin f \<le> centerBin f \<and> centerBin f \<le> rightBin f)
       \<and> (\<forall>i. Suc i < length (createMelFilterbank numFilters fftSize sampleRate) \<longrightarrow>
            centerBin (createMelFilterbank numFilters fftSize sampleRate ! i)
              \<le> centerBin (createMelFilterbank numFilters fftSize sampleRate ! Suc i))
       \<and> sorted (map centerBin (createMelFilterbank numFilters fftSize sampleRate))"
proof -
  let ?fb = "createMelFilterbank numFilters fftSize sampleRate"
  let ?e = "edgeBin numFilters fftSize sampleRate"
  have mono: "?e j \<le> ?e k" if "j \<le> k" for j k
    using assms that by (intro edgeBin_mono) simp_all
  have nth: "?fb ! i = \<lparr>leftBin = ?e i, centerBin = ?e (Suc i), rightBin = ?e (Suc (Suc i))\<rparr>"
    if "i < length ?fb" for i
    using that by (intro createMelFilterbank_nth) (simp add: createMelFilterbank_len)
  have each: "leftBin f \<le> centerBin f \<and> centerBin f \<le> rightBin f" if "f \<in> set ?fb" for f
  proof -
    from that obtain i where i: "i < length ?fb" "f = ?fb ! i"
      by (auto simp: in_set_conv_nth)
    show ?thesis unfolding i(2) nth [OF i(1)] by (simp add: mono)
  qed
  have centres: "centerBin (?fb ! i) \<le> centerBin (?fb ! j)" if "i \<le> j" "j < length ?fb" for i j
  proof -
    have "i < length ?fb" using that by simp
    then show ?thesis using that by (simp add: nth mono)
  qed
  have "sorted (map centerBin ?fb)"
    unfolding sorted_iff_nth_mono using centres by simp
  moreover have "\<forall>i. Suc i < length ?fb \<longrightarrow> centerBin (?fb ! i) \<le> centerBin (?fb ! Suc i)"
    using centres by simp
  ultimately show ?thesis using each by blast
qed

text \<open>C8 at the program's own configuration: 128 filters, FFT size 2048, 44100 Hz.\<close>

theorem filterbank_bins_ordered_witness:
  "(1::int) \<le> 128 \<and> (2::int) \<le> 2048 \<and> (0::real) < 44100
   \<and> length (createMelFilterbank 128 2048 44100) = 128
   \<and> list_all (\<lambda>f. leftBin f \<le> centerBin f \<and> centerBin f \<le> rightBin f)
        (createMelFilterbank 128 2048 44100)
   \<and> sorted (map centerBin (createMelFilterbank 128 2048 44100))"
  using filterbank_bins_ordered [of 128 2048 44100]
  by (simp add: list_all_iff createMelFilterbank_len)

section \<open>Mel spectrum of a filter of zero width\<close>

lemma melToHz_melEdge:
  assumes "0 < sampleRate"
  shows "melToHz (melEdge numFilters sampleRate k)
      = 700 * ((1 + sampleRate / 1400) powr (real k / (real_of_int numFilters + 1)) - 1)"
proof -
  let ?x = "1 + sampleRate / 1400"
  let ?c = "real k / (real_of_int numFilters + 1)"
  have x: "0 < ?x" using assms by simp
  define d where "d = real_of_int numFilters + 1"
  define L where "L = log 10 ?x"
  have "melEdge numFilters sampleRate k = real k * (2595 * L / d)"
    by (simp add: melEdge_def hzToMel_def d_def L_def)
  then have "melEdge numFilters sampleRate k / 2595 = L * (real k / d)"
    by simp
  then have e: "melEdge numFilters sampleRate k / 2595 = log 10 ?x * ?c"
    unfolding d_def L_def .
  have cancel: "10 powr log 10 ?x = ?x" using x by simp
  have "10 powr (melEdge numFilters sampleRate k / 2595) = (10 powr log 10 ?x) powr ?c"
    by (simp only: e powr_powr)
  then have "10 powr (melEdge numFilters sampleRate k / 2595) = ?x powr ?c"
    by (simp only: cancel)
  then show ?thesis by (simp only: melToHz_def)
qed

lemma edgeBin_low:
  assumes "0 < sampleRate" "0 \<le> numFilters" "int k \<le> numFilters"
  shows "edgeBin numFilters 2 sampleRate k = 0"
proof -
  let ?x = "1 + sampleRate / 1400"
  let ?c = "real k / (real_of_int numFilters + 1)"
  have x: "1 < ?x" using assms by simp
  have c: "0 \<le> ?c" "?c < 1" using assms(2,3) by simp_all
  have lo: "1 \<le> ?x powr ?c" using x c by (intro ge_one_powr_ge_zero) simp_all
  have "?x powr ?c < ?x powr 1" using x c by (intro powr_less_mono) simp_all
  then have hi: "?x powr ?c < ?x" using x by simp
  have hz: "0 \<le> melToHz (melEdge numFilters sampleRate k)"
       "melToHz (melEdge numFilters sampleRate k) < sampleRate / 2"
    unfolding melToHz_melEdge [OF assms(1)] using lo hi by simp_all
  have "0 \<le> melToHz (melEdge numFilters sampleRate k) / (sampleRate / 2)"
       "melToHz (melEdge numFilters sampleRate k) / (sampleRate / 2) < 1"
    using hz assms(1) by simp_all
  then show ?thesis unfolding edgeBin_def by (simp add: floor_eq_iff)
qed

text \<open>
  C6 as stated fails for a filter whose three bins coincide. The first filter of the valid
  configuration \<open>(2, 2, 44100)\<close> has \<open>leftBin = centerBin = rightBin = 0\<close>; on a one-bin
  frame its weight is the quotient \<open>0 / 0\<close>, so its mel-spectrum value is \<open>NaN\<close>, not a finite
  number, also for a silent frame.
\<close>

theorem degenerate_filter_gives_NaN:
  "createMelFilterbank 2 2 44100 ! 0 = \<lparr>leftBin = 0, centerBin = 0, rightBin = 0\<rparr>
   \<and> applyMelFilterbank [1] (createMelFilterbank 2 2 44100) ! 0 = None
   \<and> melValue [0] \<lparr>leftBin = 0, centerBin = 0, rightBin = 0\<rparr> = None"
proof -
  have f0: "createMelFilterbank 2 2 44100 ! 0 = \<lparr>leftBin = 0, centerBin = 0, rightBin = 0\<rparr>"
    by (simp add: createMelFilterbank_nth edgeBin_low)
  have v: "melValue [x] \<lparr>leftBin = 0, centerBin = 0, rightBin = 0\<rparr> = None" for x
    by (simp add: melValue_def binStep_def filterWeight_def jsDivide_def Let_def)
  have "applyMelFilterbank [1] (createMelFilterbank 2 2 44100) ! 0
      = melValue [1] (createMelFilterbank 2 2 44100 ! 0)"
    unfolding applyMelFilterbank_def by (intro nth_map) (simp add: createMelFilterbank_len)
  then show ?thesis using f0 v by simp
qed

section \<open>Mel spectrum of a filter with a rising and a falling ramp\<close>

lemma filterWeight_finite:
  assumes "leftBin f \<le> bin" "bin < centerBin f \<or> centerBin f \<noteq> rightBin f"
  shows "\<exists>w. filterWeight f bin = Some w"
proof (cases "bin < centerBin f")
  case True
  then have "centerBin f - leftBin f \<noteq> 0" using assms(1) by linarith
  then show ?thesis using True by (simp add: filterWeight_def jsDivide_def)
next
  case False
  then have "rightBin f - centerBin f \<noteq> 0" using assms(2) by simp
  then show ?thesis using False by (simp add: filterWeight_def jsDivide_def)
qed

lemma binStep_finite:
  assumes "0 \<le> leftBin f" "leftBin f \<le> bin"
    and "centerBin f < rightBin f \<or> int (length fftData) \<le> rightBin f"
  shows "\<exists>b m. binStep fftData f (Some a, n) bin = (Some b, m)"
proof (cases "bin < int (length fftData)")
  case True
  have "bin < centerBin f \<or> centerBin f \<noteq> rightBin f" using assms(3) True by linarith
  then obtain w where w: "filterWeight f bin = Some w"
    using filterWeight_finite [OF assms(2)] by blast
  have "\<not> bin < 0" using assms(1,2) by linarith
  then show ?thesis using True by (simp add: binStep_def w Let_def)
next
  case False
  then show ?thesis by (simp add: binStep_def)
qed

lemma foldl_binStep_finite:
  assumes "0 \<le> leftBin f"
    and "centerBin f < rightBin f \<or> int (length fftData) \<le> rightBin f"
    and "list_all (\<lambda>bin. leftBin f \<le> bin) bins"
  shows "\<exists>b m. foldl (binStep fftData f) (Some a, n) bins = (Some b, m)"
  using assms(3)
proof (induction bins arbitrary: a n)
  case Nil
  then show ?case by simp
next
  case (Cons bin bins)
  then have first: "leftBin f \<le> bin" and rest: "list_all (\<lambda>bin. leftBin f \<le> bin) bins"
    by simp_all
  obtain b m where "binStep fftData f (Some a, n) bin = (Some b, m)"
    using binStep_finite [OF assms(1) first assms(2)] by blast
  then show ?case using Cons.IH [OF rest] by simp
qed

lemma melValue_finite:
  assumes "0 \<le> leftBin f"
    and "centerBin f < rightBin f \<or> int (length fftData) \<le> rightBin f"
  shows "\<exists>x. melValue fftData f = Some x"
proof -
  have "list_all (\<lambda>bin. leftBin f \<le> bin) [leftBin f..rightBin f]"
    by (simp add: list_all_iff)
  then obtain b m where "foldl (binStep fftData f) (Some 0, 0) [leftBin f..rightBin f] = (Some b, m)"
    using foldl_binStep_finite [OF assms] by blast
  then show ?thesis by (simp add: melValue_def)
qed

lemma foldl_binStep_outside:
  assumes "list_all (\<lambda>bin. int (length fftData) \<le> bin) bins"
  shows "foldl (binStep fftData f) acc bins = acc"
  using assms by (induction bins arbitrary: acc) (simp_all add: binStep_def split: prod.splits)

lemma melValue_no_bins:
  assumes "int (length fftData) \<le> leftBin f"
  shows "melValue fftData f = Some 0"
proof -
  have "list_all (\<lambda>bin. int (length fftData) \<le> bin) [leftBin f..rightBin f]"
    using assms by (simp add: list_all_iff)
  then show ?thesis by (simp add: melValue_def foldl_binStep_outside)
qed

text \<open>
  C6 (as the code has it). For every frame and every filterbank whose filters have
  \<open>leftBin \<ge> 0\<close> and \<open>centerBin < rightBin\<close> (or a \<open>rightBin\<close> beyond the frame), as all 128
  filters of the program's own filterbank do, each mel-spectrum value is a finite number,
  and a filter that covers no bin of the frame yields 0.
\<close>

theorem applyMelFilterbank_finite:
  assumes "\<forall>f \<in> set filterbank.
      0 \<le> leftBin f \<and> (centerBin f < rightBin f \<or> int (length fftData) \<le> rightBin f)"
  shows "length (applyMelFilterbank fftData filterbank) = length filterbank
       \<and> (\<forall>v \<in> set (applyMelFilterbank fftData filterbank). \<exists>x. v = Some x)
       \<and> (\<forall>f \<in> set filterbank. int (length fftData) \<le> leftBin f \<longrightarrow> melValue fftData f = Some 0)"
proof (intro conjI ballI impI)
  show "length (applyMelFilterbank fftData filterbank) = length filterbank"
    by (simp add: applyMelFilterbank_def)
next
  fix v assume "v \<in> set (applyMelFilterbank fftData filterbank)"
  then obtain f where f: "f \<in> set filterbank" "v = melValue fftData f"
    by (auto simp: applyMelFilterbank_def)
  then show "\<exists>x. v = Some x" using assms melValue_finite [of f fftData] by auto
next
  fix f assume "f \<in> set filterbank" "int (length fftData) \<le> leftBin f"
  then show "melValue fftData f = Some 0" by (intro melValue_no_bins)
qed

section \<open>The program's own filterbank\<close>

lemma melRatio_power: "melRatio ^ 129 = 65 / 2"
proof -
  have "melRatio ^ 129 = (65 / 2 :: real) powr (real 129 * (1 / 129))"
    unfolding melRatio_def by (intro powr_power) simp
  also have "\<dots> = (65 / 2) powr 1" by simp
  also have "\<dots> = 65 / 2" by simp
  finally show ?thesis .
qed

lemma melRatio_pos: "0 \<le> melRatio"
  by (simp add: melRatio_def)

lemma melRatio_lower: "1027 / 1000 \<le> melRatio"
proof (rule ccontr)
  assume "\<not> 1027 / 1000 \<le> melRatio"
  then have "melRatio < 1027 / 1000" by simp
  then have "melRatio ^ 129 < (1027 / 1000) ^ 129"
    using melRatio_pos by (intro power_strict_mono) simp_all
  moreover have "(1027 / 1000 :: real) ^ 129 \<le> 65 / 2"
    by (simp add: power_divide field_simps)
  ultimately show False unfolding melRatio_power by linarith
qed

lemma melRatio_upper: "melRatio \<le> 1029 / 1000"
proof (rule ccontr)
  assume "\<not> melRatio \<le> 1029 / 1000"
  then have "1029 / 1000 < melRatio" by simp
  then have "(1029 / 1000) ^ 129 < melRatio ^ 129"
    by (intro power_strict_mono) simp_all
  moreover have "(65 / 2 :: real) \<le> (1029 / 1000) ^ 129"
    by (simp add: power_divide field_simps)
  ultimately show False unfolding melRatio_power by linarith
qed

lemma edgeBin_program: "edgeBin 128 2048 44100 k = \<lfloor>progEdge k\<rfloor>"
proof -
  have "(65 / 2 :: real) powr (real k / 129) = melRatio ^ k"
  proof -
    have "melRatio ^ k = (65 / 2 :: real) powr (real k * (1 / 129))"
      unfolding melRatio_def by (intro powr_power) simp
    then show ?thesis by simp
  qed
  then have "melToHz (melEdge 128 44100 k) = 700 * (melRatio ^ k - 1)"
    using melToHz_melEdge [of 44100 128 k] by simp
  then have "melToHz (melEdge 128 44100 k) / (44100 / real_of_int 2048) = progEdge k"
    unfolding progEdge_def by (simp add: field_simps)
  then show ?thesis by (simp only: edgeBin_def)
qed

lemma floor_strict:
  fixes x y :: real and m :: int
  assumes "x < real_of_int m" "real_of_int m \<le> y"
  shows "\<lfloor>x\<rfloor> < \<lfloor>y\<rfloor>"
proof -
  have "\<lfloor>x\<rfloor> < m" using assms(1) by (simp only: floor_less_iff)
  moreover have "m \<le> \<lfloor>y\<rfloor>" using assms(2) by (simp only: le_floor_iff)
  ultimately show ?thesis by linarith
qed

lemma melRatio_pow_bounds:
  "(1027 / 1000) ^ k \<le> melRatio ^ k" "melRatio ^ k \<le> (1029 / 1000) ^ k"
  using melRatio_lower melRatio_upper melRatio_pos by (simp_all add: power_mono)

lemma gap_identity:
  fixes C a p :: real
  shows "C * (a * p - 1) - C * (p - 1) = C * (p * (a - 1))"
  by (simp add: algebra_simps)

lemma progEdge_gap:
  assumes "5 \<le> k"
  shows "progEdge k + 1 \<le> progEdge (Suc k)"
proof -
  have one: "1 \<le> melRatio" using melRatio_lower by simp
  have "(1027 / 1000) ^ 5 \<le> melRatio ^ 5" by (rule melRatio_pow_bounds)
  also have "\<dots> \<le> melRatio ^ k" using assms one by (intro power_increasing)
  finally have p: "(1027 / 1000) ^ 5 \<le> melRatio ^ k" .
  have m: "27 / 1000 \<le> melRatio - 1" using melRatio_lower by simp
  have "(1027 / 1000) ^ 5 * (27 / 1000) \<le> melRatio ^ k * (melRatio - 1)"
    using p m by (intro mult_mono) simp_all
  then have "14336 / 441 * ((1027 / 1000) ^ 5 * (27 / 1000)) \<le> 14336 / 441 * (melRatio ^ k * (melRatio - 1))"
    by (intro mult_left_mono) simp_all
  moreover have "(1::real) \<le> 14336 / 441 * ((1027 / 1000) ^ 5 * (27 / 1000))"
    by (simp add: power_divide field_simps)
  moreover have "progEdge (Suc k) - progEdge k = 14336 / 441 * (melRatio ^ k * (melRatio - 1))"
    unfolding progEdge_def power_Suc by (rule gap_identity)
  ultimately show ?thesis by linarith
qed

lemma progEdge_small:
  "progEdge 0 = 0"
  "progEdge 1 < 1" "1 \<le> progEdge 2"
  "progEdge 2 < 2" "2 \<le> progEdge 3"
  "progEdge 3 < 3" "3 \<le> progEdge 4"
  "progEdge 4 < 4" "4 \<le> progEdge 5"
proof -
  show "progEdge 0 = 0" by (simp add: progEdge_def)
  have u: "melRatio ^ k \<le> (1029 / 1000) ^ k" and l: "(1027 / 1000) ^ k \<le> melRatio ^ k" for k
    by (rule melRatio_pow_bounds)+
  have up: "progEdge k \<le> 14336 / 441 * ((1029 / 1000) ^ k - 1)" for k
    unfolding progEdge_def using u [of k] by (intro mult_left_mono) simp_all
  have lo: "14336 / 441 * ((1027 / 1000) ^ k - 1) \<le> progEdge k" for k
    unfolding progEdge_def using l [of k] by (intro mult_left_mono) simp_all
  have "14336 / 441 * ((1029 / 1000) ^ 1 - 1) < (1::real)" by (simp add: field_simps)
  then show "progEdge 1 < 1" using up [of 1] by linarith
  have "14336 / 441 * ((1029 / 1000) ^ 2 - 1) < (2::real)" by (simp add: power_divide field_simps)
  then show "progEdge 2 < 2" using up [of 2] by linarith
  have "14336 / 441 * ((1029 / 1000) ^ 3 - 1) < (3::real)" by (simp add: power_divide field_simps)
  then show "progEdge 3 < 3" using up [of 3] by linarith
  have "14336 / 441 * ((1029 / 1000) ^ 4 - 1) < (4::real)" by (simp add: power_divide field_simps)
  then show "progEdge 4 < 4" using up [of 4] by linarith
  have "(1::real) \<le> 14336 / 441 * ((1027 / 1000) ^ 2 - 1)" by (simp add: power_divide field_simps)
  then show "1 \<le> progEdge 2" using lo [of 2] by linarith
  have "(2::real) \<le> 14336 / 441 * ((1027 / 1000) ^ 3 - 1)" by (simp add: power_divide field_simps)
  then show "2 \<le> progEdge 3" using lo [of 3] by linarith
  have "(3::real) \<le> 14336 / 441 * ((1027 / 1000) ^ 4 - 1)" by (simp add: power_divide field_simps)
  then show "3 \<le> progEdge 4" using lo [of 4] by linarith
  have "(4::real) \<le> 14336 / 441 * ((1027 / 1000) ^ 5 - 1)" by (simp add: power_divide field_simps)
  then show "4 \<le> progEdge 5" using lo [of 5] by linarith
qed

lemma edgeBin_program_strict:
  assumes "1 \<le> k"
  shows "edgeBin 128 2048 44100 k < edgeBin 128 2048 44100 (Suc k)"
proof -
  consider "k = 1" | "k = 2" | "k = 3" | "k = 4" | "5 \<le> k" using assms by linarith
  then have "\<lfloor>progEdge k\<rfloor> < \<lfloor>progEdge (Suc k)\<rfloor>"
  proof cases
    case 1
    have "\<lfloor>progEdge 1\<rfloor> < \<lfloor>progEdge 2\<rfloor>"
      using progEdge_small(2,3) by (intro floor_strict [of _ 1]) simp_all
    then show ?thesis using 1 by (simp add: numeral_2_eq_2)
  next
    case 2
    have "\<lfloor>progEdge 2\<rfloor> < \<lfloor>progEdge 3\<rfloor>"
      using progEdge_small(4,5) by (intro floor_strict [of _ 2]) simp_all
    then show ?thesis using 2 by (simp add: numeral_3_eq_3 numeral_2_eq_2)
  next
    case 3
    have "\<lfloor>progEdge 3\<rfloor> < \<lfloor>progEdge 4\<rfloor>"
      using progEdge_small(6,7) by (intro floor_strict [of _ 3]) simp_all
    moreover have "Suc 3 = 4" by simp
    ultimately show ?thesis using 3 by simp
  next
    case 4
    have "\<lfloor>progEdge 4\<rfloor> < \<lfloor>progEdge 5\<rfloor>"
      using progEdge_small(8,9) by (intro floor_strict [of _ 4]) simp_all
    moreover have "Suc 4 = 5" by simp
    ultimately show ?thesis using 4 by simp
  next
    case 5
    then have "progEdge k + 1 \<le> progEdge (Suc k)" by (rule progEdge_gap)
    then have "\<lfloor>progEdge k + 1\<rfloor> \<le> \<lfloor>progEdge (Suc k)\<rfloor>" by (rule floor_mono)
    then show ?thesis by simp
  qed
  then show ?thesis unfolding edgeBin_program .
qed

lemma program_filterbank_shape:
  "list_all (\<lambda>f. 0 \<le> leftBin f \<and> leftBin f \<le> centerBin f \<and> centerBin f < rightBin f)
     (createMelFilterbank 128 2048 44100)"
proof -
  let ?e = "edgeBin 128 2048 44100"
  have zero: "?e 0 = 0" unfolding edgeBin_program by (simp add: progEdge_small(1))
  have mono: "?e j \<le> ?e k" if "j \<le> k" for j k
    using that by (intro edgeBin_mono) simp_all
  have "0 \<le> leftBin (createMelFilterbank 128 2048 44100 ! i)
      \<and> leftBin (createMelFilterbank 128 2048 44100 ! i) \<le> centerBin (createMelFilterbank 128 2048 44100 ! i)
      \<and> centerBin (createMelFilterbank 128 2048 44100 ! i) < rightBin (createMelFilterbank 128 2048 44100 ! i)"
    if "i < length (createMelFilterbank 128 2048 44100)" for i
  proof -
    have i: "i < nat 128" using that by (simp add: createMelFilterbank_len)
    have "0 \<le> ?e i" using mono [of 0 i] zero by simp
    moreover have "?e i \<le> ?e (Suc i)" by (intro mono) simp
    moreover have "?e (Suc i) < ?e (Suc (Suc i))" by (intro edgeBin_program_strict) simp
    ultimately show ?thesis unfolding createMelFilterbank_nth [OF i] by simp
  qed
  then show ?thesis unfolding list_all_length by blast
qed

text \<open>
  C6 on the filterbank of the program, \<open>createMelFilterbank 128 2048 44100\<close>: its filters
  have \<open>0 \<le> leftBin \<le> centerBin < rightBin\<close>, so every frame gives 128 finite values, and
  the empty frame gives 0.
\<close>

theorem applyMelFilterbank_finite_witness:
  "list_all (\<lambda>f. 0 \<le> leftBin f \<and> leftBin f \<le> centerBin f \<and> centerBin f < rightBin f)
     (createMelFilterbank 128 2048 44100)
   \<and> (\<forall>fftData. length (applyMelFilterbank fftData (createMelFilterbank 128 2048 44100)) = 128)
   \<and> (\<forall>fftData. list_all (\<lambda>v. \<exists>x. v = Some x)
         (applyMelFilterbank fftData (createMelFilterbank 128 2048 44100)))
   \<and> melValue [] (createMelFilterbank 128 2048 44100 ! 0) = Some 0"
proof -
  let ?fb = "createMelFilterbank 128 2048 44100"
  have shape: "\<forall>f \<in> set ?fb. 0 \<le> leftBin f \<and> leftBin f \<le> centerBin f \<and> centerBin f < rightBin f"
    using program_filterbank_shape unfolding list_all_iff .
  then have hyp: "\<forall>f \<in> set ?fb.
      0 \<le> leftBin f \<and> (centerBin f < rightBin f \<or> int (length fftData) \<le> rightBin f)" for fftData
    by blast
  note fin = applyMelFilterbank_finite [OF hyp]
  have len: "length ?fb = 128" by (simp add: createMelFilterbank_len)
  have first: "?fb ! 0 \<in> set ?fb" using len by (intro nth_mem) simp
  have "melValue [] (?fb ! 0) = Some 0"
    using fin [of "[]"] first shape by auto
  moreover have "length (applyMelFilterbank fftData ?fb) = 128" for fftData
    using fin [of fftData] len by simp
  moreover have "list_all (\<lambda>v. \<exists>x. v = Some x) (applyMelFilterbank fftData ?fb)" for fftData
    using fin [of fftData] unfolding list_all_iff by blast
  ultimately show ?thesis using program_filterbank_shape by blast
qed

section \<open>Linear gradient\<close>

lemma gradient_valid:
  assumes "isValid lib (parse lib startColor)" "isValid lib (parse lib endColor)" "2 \<le> steps"
  shows "generateGradient lib startColor endColor steps =
     map (\<lambda>i. toHexString lib (mix lib (parse lib startColor) (parse lib endColor)
                 (real i / (real_of_int steps - 1) * 100))) [0..<nat steps]"
  using assms by (simp add: generateGradient_def Let_def)

text \<open>
  C9. Let the library's \<open>mix\<close> at 0 and at 100 render as its first and its second argument.
  For valid start and end colours and \<open>steps \<ge> 2\<close>, \<open>generateGradient\<close> returns exactly
  \<open>steps\<close> colours, the \<open>i\<close>-th being the mix of start and end at \<open>i / (steps - 1)\<close>
  (as a percentage), the first equal to the start colour and the last to the end colour.
  For \<open>steps < 2\<close> or an invalid start or end colour it returns the empty list.
\<close>

theorem generateGradient_contract:
  assumes mix0: "\<And>a b. toHexString lib (mix lib a b 0) = toHexString lib a"
    and mix100: "\<And>a b. toHexString lib (mix lib a b 100) = toHexString lib b"
  shows "(isValid lib (parse lib startColor) \<and> isValid lib (parse lib endColor) \<and> 2 \<le> steps \<longrightarrow>
            int (length (generateGradient lib startColor endColor steps)) = steps
          \<and> (\<forall>i < nat steps. generateGradient lib startColor endColor steps ! i =
                toHexString lib (mix lib (parse lib startColor) (parse lib endColor)
                  (real i / (real_of_int steps - 1) * 100)))
          \<and> hd (generateGradient lib startColor endColor steps) = toHexString lib (parse lib startColor)
          \<and> last (generateGradient lib startColor endColor steps) = toHexString lib (parse lib endColor))
       \<and> (steps < 2 \<or> \<not> isValid lib (parse lib startColor) \<or> \<not> isValid lib (parse lib endColor) \<longrightarrow>
            generateGradient lib startColor endColor steps = [])"
proof (intro conjI impI)
  assume "steps < 2 \<or> \<not> isValid lib (parse lib startColor) \<or> \<not> isValid lib (parse lib endColor)"
  then show "generateGradient lib startColor endColor steps = []"
    by (auto simp: generateGradient_def Let_def)
next
  assume v: "isValid lib (parse lib startColor) \<and> isValid lib (parse lib endColor) \<and> 2 \<le> steps"
  let ?f = "\<lambda>i. toHexString lib (mix lib (parse lib startColor) (parse lib endColor)
                 (real i / (real_of_int steps - 1) * 100))"
  have g: "generateGradient lib startColor endColor steps = map ?f [0..<nat steps]"
    using v by (intro gradient_valid) simp_all
  from v have s2: "2 \<le> steps" by simp
  have n1: "0 < nat steps" "1 \<le> nat steps" using s2 by linarith+
  have "real (nat steps - 1) = real (nat steps) - real 1"
    using n1(2) by (rule of_nat_diff)
  also have "\<dots> = real_of_int steps - 1" using s2 by simp
  finally have n2: "real (nat steps - 1) = real_of_int steps - 1" .
  have n3: "real_of_int steps - 1 \<noteq> 0" using s2 by simp
  have q: "(real_of_int steps - 1) / (real_of_int steps - 1) * 100 = (100::real)"
    using n3 by simp
  note n = n1(1) n2 n3
  show "int (length (generateGradient lib startColor endColor steps)) = steps"
    unfolding g using v by simp
  show "\<forall>i < nat steps. generateGradient lib startColor endColor steps ! i = ?f i"
    unfolding g by simp
  have "hd (map ?f [0..<nat steps]) = ?f 0"
    using n(1) by (simp add: hd_map upt_conv_Cons)
  then show "hd (generateGradient lib startColor endColor steps) = toHexString lib (parse lib startColor)"
    unfolding g by (simp add: mix0)
  have ne: "[0..<nat steps] \<noteq> []" using n1(1) by simp
  have lu: "last [0..<nat steps] = nat steps - 1" using n1(1) by (rule last_upt)
  have "last (map ?f [0..<nat steps]) = ?f (nat steps - 1)"
    using last_map [OF ne, of ?f] unfolding lu .
  also have "\<dots> = toHexString lib (mix lib (parse lib startColor) (parse lib endColor)
      ((real_of_int steps - 1) / (real_of_int steps - 1) * 100))"
    by (simp only: n2)
  also have "\<dots> = toHexString lib (mix lib (parse lib startColor) (parse lib endColor) 100)"
    by (simp only: q)
  finally show "last (generateGradient lib startColor endColor steps) = toHexString lib (parse lib endColor)"
    unfolding g by (simp add: mix100)
qed

section \<open>Linear gradient at concrete colours\<close>

lemma ref_mix_ends:
  "toHexString ref_lib (mix ref_lib a b 0) = toHexString ref_lib a"
  "toHexString ref_lib (mix ref_lib a b 100) = toHexString ref_lib b"
  by (cases a; cases b; simp add: ref_lib_def Let_def)+

lemma parse_black: "parse ref_lib ''#000000'' = Rcolor True 0 0 0"
  by (simp add: parse_eval)

lemma parse_white: "parse ref_lib ''#ffffff'' = Rcolor True 255 255 255"
  by (simp add: parse_eval)

lemma parse_bad: "parse ref_lib ''nope'' = Rcolor False 0 0 0"
  by (simp add: parse_eval)

lemma hex2_bf: "hex2 (765 / 4) = ''bf''"
  by (simp add: hex2_def hexDigits_def Let_def round_def)

text \<open>
  C9 from black to white in five steps, with one step only, and with a start colour that
  does not parse.
\<close>

theorem generateGradient_contract_witness:
  "isValid ref_lib (parse ref_lib ''#000000'') \<and> isValid ref_lib (parse ref_lib ''#ffffff'')
   \<and> generateGradient ref_lib ''#000000'' ''#ffffff'' 5
       = [''#000000'', ''#404040'', ''#808080'', ''#bfbfbf'', ''#ffffff'']
   \<and> int (length (generateGradient ref_lib ''#000000'' ''#ffffff'' 5)) = 5
   \<and> hd (generateGradient ref_lib ''#000000'' ''#ffffff'' 5) = toHexString ref_lib (parse ref_lib ''#000000'')
   \<and> last (generateGradient ref_lib ''#000000'' ''#ffffff'' 5) = toHexString ref_lib (parse ref_lib ''#ffffff'')
   \<and> generateGradient ref_lib ''#000000'' ''#ffffff'' 1 = []
   \<and> \<not> isValid ref_lib (parse ref_lib ''nope'')
   \<and> generateGradient ref_lib ''nope'' ''#ffffff'' 5 = []"
proof -
  have v: "isValid ref_lib (parse ref_lib ''#000000'')" "isValid ref_lib (parse ref_lib ''#ffffff'')"
    "\<not> isValid ref_lib (parse ref_lib ''nope'')"
    unfolding parse_black parse_white parse_bad by (simp_all add: ref_lib_def)
  have l: "[0..<nat 5] = [0, 1, 2, 3, 4]" by (simp add: upt_conv_Cons)
  have five: "(2::int) \<le> 5" by simp
  have run: "generateGradient ref_lib ''#000000'' ''#ffffff'' 5
       = [''#000000'', ''#404040'', ''#808080'', ''#bfbfbf'', ''#ffffff'']"
    unfolding gradient_valid [OF v(1,2) five] parse_black parse_white l
    by (simp add: ref_lib_def Let_def hex2_00 hex2_40 hex2_80 hex2_bf hex2_ff)
  show ?thesis
    using generateGradient_contract [of ref_lib "''#000000''" "''#ffffff''" 5, OF ref_mix_ends]
      generateGradient_contract [of ref_lib "''#000000''" "''#ffffff''" 1, OF ref_mix_ends]
      generateGradient_contract [of ref_lib "''nope''" "''#ffffff''" 5, OF ref_mix_ends]
      v run
    by simp
qed

section \<open>The reactive mapper and out-of-range samples\<close>

lemma isHex6_color: "isHex6 s \<Longrightarrow> isHexColor s"
  by (cases s) (simp_all add: isHex6_def isHexColor_def)

lemma isHex6_suffix: "isHex6 s \<Longrightarrow> isHexColor (s @ ''33'')"
  by (cases s) (simp_all add: isHex6_def isHexColor_def isHexDigit_def)

lemma black_color: "isHexColor ''#000000''"
  by (simp add: isHexColor_def isHexDigit_def)

text \<open>
  C4 (as the code has it). Let the library's \<open>toHexString\<close> return \<open>#\<close> and six hex digits.
  For every sample, in range or not, an active controller produces a valid palette and
  never rejects the frame or emits an undefined colour: \<open>processAudioData\<close> hands on
  customizations for all 22 colour keys, each value a hex colour string (\<open>#\<close> and six or
  eight hex digits). It does not clamp the values: the smoothed hue, saturation and
  lightness move toward targets computed from the raw values.
\<close>

theorem processAudioData_valid_palette:
  assumes "isActive st" and "\<And>c. isHex6 (toHexString lib c)"
  shows "\<exists>palette.
      processAudioData lib st data =
        (st\<lparr>lastHue := smooth (lastHue st) (real_of_int \<lfloor>dominantFreq data * 360\<rfloor>) (smoothingFactor st),
            lastSaturation := smooth (lastSaturation st) (40 + energy data * 60) (smoothingFactor st),
            lastBrightness := smooth (lastBrightness st) (30 + spectralCentroid data * 40) (smoothingFactor st)\<rparr>,
         Some palette)
      \<and> map fst palette = paletteKeys
      \<and> list_all (\<lambda>entry. isHexColor (snd entry)) palette"
proof -
  have c: "isHexColor (toHexString lib x)" for x
    using assms(2) by (rule isHex6_color)
  have s: "isHexColor (toHexString lib x @ ''33'')" for x
    using assms(2) by (rule isHex6_suffix)
  show ?thesis
    using assms(1) by (simp add: processAudioData_def Let_def paletteKeys_def c s black_color)
qed

lemma hexDigits_nth: "k < 16 \<Longrightarrow> isHexDigit (hexDigits ! k)"
proof -
  assume "k < 16"
  then have "hexDigits ! k \<in> set hexDigits" by (intro nth_mem) (simp add: hexDigits_def)
  then show ?thesis by (auto simp: isHexDigit_def hexDigits_def)
qed

lemma hex2_digits: "\<exists>a b. hex2 x = [a, b] \<and> isHexDigit a \<and> isHexDigit b"
proof -
  define n where "n = nat (min 255 (max 0 (round x)))"
  have "n \<le> 255" unfolding n_def by simp
  then have "n div 16 < 16" "n mod 16 < 16" by simp_all
  then have "isHexDigit (hexDigits ! (n div 16))" "isHexDigit (hexDigits ! (n mod 16))"
    by (simp_all add: hexDigits_nth)
  then show ?thesis unfolding hex2_def Let_def n_def [symmetric] by simp
qed

lemma ref_hex6: "isHex6 (toHexString ref_lib c)"
proof (cases c)
  case (Rcolor ok r g b)
  obtain r1 r0 where r: "hex2 r = [r1, r0]" "isHexDigit r1" "isHexDigit r0"
    using hex2_digits [of r] by blast
  obtain g1 g0 where g: "hex2 g = [g1, g0]" "isHexDigit g1" "isHexDigit g0"
    using hex2_digits [of g] by blast
  obtain b1 b0 where b: "hex2 b = [b1, b0]" "isHexDigit b1" "isHexDigit b0"
    using hex2_digits [of b] by blast
  show ?thesis unfolding Rcolor by (simp add: ref_lib_def isHex6_def r g b)
qed

text \<open>C4 on a freshly activated controller and a sample with energy 10.\<close>

theorem processAudioData_valid_palette_witness:
  "isActive (activate newController [])
   \<and> (\<forall>c. isHex6 (toHexString ref_lib c))
   \<and> (\<exists>palette.
        processAudioData ref_lib (activate newController []) loudSample =
          (activate newController []\<lparr>lastHue := 0, lastSaturation := 227, lastBrightness := 44\<rparr>,
           Some palette)
        \<and> map fst palette = paletteKeys
        \<and> list_all (\<lambda>entry. isHexColor (snd entry)) palette)"
proof -
  have a: "isActive (activate newController [])"
    by (simp add: activate_def newController_def)
  show ?thesis
    using processAudioData_valid_palette [OF a ref_hex6, of loudSample] a ref_hex6
    by (simp add: smooth_def activate_def newController_def loudSample_def)
qed

text \<open>
  C4 as stated fails: the sample with energy 10 is not clamped into range. It takes the
  smoothed saturation from 50 to 227, outside \<open>[0, 100]\<close>; the same sample with its energy
  clamped to 1 would take it to 65.
\<close>

theorem mapper_does_not_clamp:
  "lastSaturation (fst (processAudioData ref_lib (activate newController []) loudSample)) = 227
   \<and> lastSaturation (fst (processAudioData ref_lib (activate newController [])
        (loudSample\<lparr>energy := 1\<rparr>))) = 65"
  by (simp add: processAudioData_def Let_def smooth_def activate_def newController_def loudSample_def)

section \<open>RGB to Lab and back\<close>

lemma cube_root_cube:
  fixes t :: real
  assumes "0 < t"
  shows "t powr (1 / 3) * t powr (1 / 3) * t powr (1 / 3) = t"
proof -
  have "t powr (1 / 3) * t powr (1 / 3) * t powr (1 / 3) = t powr (1 / 3 + 1 / 3 + 1 / 3)"
    by (simp only: powr_add)
  also have "\<dots> = t powr 1" by simp
  also have "\<dots> = t" using assms by simp
  finally show ?thesis .
qed

lemma labFinv_labF:
  assumes "0 \<le> t"
  shows "labFinv (labF t) = t"
proof (cases "t > 0.008856")
  case True
  then have "0 < t" by simp
  then have c: "t powr (1 / 3) * t powr (1 / 3) * t powr (1 / 3) = t" by (rule cube_root_cube)
  have "labF t = t powr (1 / 3)" using True by (simp add: labF_def)
  then show ?thesis unfolding labFinv_def using c True by simp
next
  case False
  let ?x = "7.787 * t + 16 / 116 :: real"
  let ?m = "7.787 * 0.008856 + 16 / 116 :: real"
  have t: "t \<le> 0.008856" using False by simp
  have x: "0 \<le> ?x" "?x \<le> ?m" using assms t by simp_all
  have "?x * ?x \<le> ?m * ?m" using x by (intro mult_mono) simp_all
  then have "?x * ?x * ?x \<le> ?m * ?m * ?m" using x by (intro mult_mono) simp_all
  also have "\<dots> \<le> 0.008856" by simp
  finally have small: "\<not> ?x * ?x * ?x > 0.008856" by simp
  have "labF t = ?x" using False by (simp add: labF_def)
  then show ?thesis unfolding labFinv_def using small by simp
qed

lemma labToRgb_rgbToLab:
  fixes r g b :: real
  defines "R \<equiv> gammaExpand (r / 255)" and "G \<equiv> gammaExpand (g / 255)" and "B \<equiv> gammaExpand (b / 255)"
  assumes "0 \<le> R" "0 \<le> G" "0 \<le> B"
  shows "labToRgb (rgbToLab \<lparr>rgb_r = r, rgb_g = g, rgb_b = b\<rparr>) =
     \<lparr>rgb_r = toByte (gammaCompress
        ((R * 0.4124 + G * 0.3576 + B * 0.1805) * 3.2406
         + (R * 0.2126 + G * 0.7152 + B * 0.0722) * - 1.5372
         + (R * 0.0193 + G * 0.1192 + B * 0.9505) * - 0.4986)),
      rgb_g = toByte (gammaCompress
        ((R * 0.4124 + G * 0.3576 + B * 0.1805) * - 0.9689
         + (R * 0.2126 + G * 0.7152 + B * 0.0722) * 1.8758
         + (R * 0.0193 + G * 0.1192 + B * 0.9505) * 0.0415)),
      rgb_b = toByte (gammaCompress
        ((R * 0.4124 + G * 0.3576 + B * 0.1805) * 0.0557
         + (R * 0.2126 + G * 0.7152 + B * 0.0722) * - 0.2040
         + (R * 0.0193 + G * 0.1192 + B * 0.9505) * 1.0570))\<rparr>"
proof -
  let ?X = "R * 0.4124 + G * 0.3576 + B * 0.1805"
  let ?Y = "R * 0.2126 + G * 0.7152 + B * 0.0722"
  let ?Z = "R * 0.0193 + G * 0.1192 + B * 0.9505"
  have fwd: "rgbToLab \<lparr>rgb_r = r, rgb_g = g, rgb_b = b\<rparr> =
      \<lparr>lab_l = 116 * labF (?Y / 1.00000) - 16,
       lab_a = 500 * (labF (?X / 0.95047) - labF (?Y / 1.00000)),
       lab_b = 200 * (labF (?Y / 1.00000) - labF (?Z / 1.08883))\<rparr>"
    unfolding rgbToLab_def Let_def rgb.simps labF_def R_def G_def B_def gammaExpand_def ..
  have bwd: "labToRgb \<lparr>lab_l = 116 * fy - 16, lab_a = 500 * (fx - fy), lab_b = 200 * (fy - fz)\<rparr> =
      \<lparr>rgb_r = toByte (gammaCompress
         (0.95047 * labFinv fx * 3.2406 + 1.00000 * labFinv fy * - 1.5372 + 1.08883 * labFinv fz * - 0.4986)),
       rgb_g = toByte (gammaCompress
         (0.95047 * labFinv fx * - 0.9689 + 1.00000 * labFinv fy * 1.8758 + 1.08883 * labFinv fz * 0.0415)),
       rgb_b = toByte (gammaCompress
         (0.95047 * labFinv fx * 0.0557 + 1.00000 * labFinv fy * - 0.2040 + 1.08883 * labFinv fz * 1.0570))\<rparr>"
    for fx fy fz
  proof -
    have y: "(116 * fy - 16 + 16) / 116 = fy" by simp
    have x: "500 * (fx - fy) / 500 + fy = fx" by (simp add: diff_divide_distrib)
    have z: "fy - 200 * (fy - fz) / 200 = fz" by (simp add: diff_divide_distrib)
    show ?thesis
      unfolding labToRgb_def Let_def lab.simps y x z
      unfolding labFinv_def gammaCompress_def toByte_def ..
  qed
  have nn: "0 \<le> ?X / 0.95047" "0 \<le> ?Y / 1.00000" "0 \<le> ?Z / 1.08883"
    using assms(4-6) by simp_all
  have inv: "0.95047 * labFinv (labF (?X / 0.95047)) = ?X"
       "1.00000 * labFinv (labF (?Y / 1.00000)) = ?Y"
       "1.08883 * labFinv (labF (?Z / 1.08883)) = ?Z"
    unfolding labFinv_labF [OF nn(1)] labFinv_labF [OF nn(2)] labFinv_labF [OF nn(3)] by simp_all
  show ?thesis unfolding fwd bwd inv ..
qed

lemma gammaExpand_range:
  assumes "0 \<le> u" "u \<le> 1"
  shows "0 \<le> gammaExpand u \<and> gammaExpand u \<le> 1"
proof (cases "u > 0.04045")
  case True
  let ?w = "(u + 0.055) / 1.055"
  have w: "0 \<le> ?w" "\<bar>?w\<bar> \<le> 1" using assms by simp_all
  have "?w powr 2.4 \<le> 1" using w(2) by (intro powr_le1) simp_all
  then show ?thesis using True by (simp add: gammaExpand_def)
next
  case False
  then show ?thesis using assms by (simp add: gammaExpand_def)
qed

lemma mix_error_r:
  fixes R G B :: real
  assumes "0 \<le> R" "R \<le> 1" "0 \<le> G" "G \<le> 1" "0 \<le> B" "B \<le> 1"
  shows "\<bar>(R * 0.4124 + G * 0.3576 + B * 0.1805) * 3.2406
         + (R * 0.2126 + G * 0.7152 + B * 0.0722) * - 1.5372
         + (R * 0.0193 + G * 0.1192 + B * 0.9505) * - 0.4986 - R\<bar> \<le> 0.00005 * R + 0.00003"
proof -
  have "(R * 0.4124 + G * 0.3576 + B * 0.1805) * 3.2406
         + (R * 0.2126 + G * 0.7152 + B * 0.0722) * - 1.5372
         + (R * 0.0193 + G * 0.1192 + B * 0.9505) * - 0.4986
       = 49999587 / 50000000 * R + 579 / 25000000 * B"
    by (simp add: algebra_simps)
  then show ?thesis using assms by (simp add: abs_le_iff)
qed

lemma mix_error_g:
  fixes R G B :: real
  assumes "0 \<le> R" "R \<le> 1" "0 \<le> G" "G \<le> 1" "0 \<le> B" "B \<le> 1"
  shows "\<bar>(R * 0.4124 + G * 0.3576 + B * 0.1805) * - 0.9689
         + (R * 0.2126 + G * 0.7152 + B * 0.0722) * 1.8758
         + (R * 0.0193 + G * 0.1192 + B * 0.9505) * 0.0415 - G\<bar> \<le> 0.00005 * G + 0.00003"
proof -
  have "(R * 0.4124 + G * 0.3576 + B * 0.1805) * - 0.9689
         + (R * 0.2126 + G * 0.7152 + B * 0.0722) * 1.8758
         + (R * 0.0193 + G * 0.1192 + B * 0.9505) * 0.0415
       = 2167 / 100000000 * R + 1562563 / 1562500 * G - 397 / 50000000 * B"
    by (simp add: algebra_simps)
  then show ?thesis using assms by (simp add: abs_le_iff)
qed

lemma mix_error_b:
  fixes R G B :: real
  assumes "0 \<le> R" "R \<le> 1" "0 \<le> G" "G \<le> 1" "0 \<le> B" "B \<le> 1"
  shows "\<bar>(R * 0.4124 + G * 0.3576 + B * 0.1805) * 0.0557
         + (R * 0.2126 + G * 0.7152 + B * 0.0722) * - 0.2040
         + (R * 0.0193 + G * 0.1192 + B * 0.9505) * 1.0570 - B\<bar> \<le> 0.00005 * B + 0.00003"
proof -
  have "(R * 0.4124 + G * 0.3576 + B * 0.1805) * 0.0557
         + (R * 0.2126 + G * 0.7152 + B * 0.0722) * - 0.2040
         + (R * 0.0193 + G * 0.1192 + B * 0.9505) * 1.0570
       = 19 / 50000000 * R + 149 / 12500000 * G + 20000071 / 20000000 * B"
    by (simp add: algebra_simps)
  then show ?thesis using assms by (simp add: abs_le_iff)
qed

lemma round_close:
  fixes x :: real and c :: int
  assumes "\<bar>x - real_of_int c\<bar> < 3 / 2"
  shows "\<bar>round x - c\<bar> \<le> 1"
proof -
  have a: "real_of_int (c - 1) \<le> x + 1 / 2" and b: "x + 1 / 2 < real_of_int (c + 2)"
    using assms by (simp_all, linarith+)
  have "c - 1 \<le> \<lfloor>x + 1 / 2\<rfloor>" using a by (simp only: le_floor_iff)
  moreover have "\<lfloor>x + 1 / 2\<rfloor> < c + 2" using b by (simp only: floor_less_iff)
  ultimately show ?thesis unfolding round_def by simp
qed

lemma toByte_close:
  fixes c :: int
  assumes "0 \<le> c" "c \<le> 255" "\<bar>v * 255 - real_of_int c\<bar> < 3 / 2"
  shows "\<bar>toByte v - real_of_int c\<bar> \<le> 1"
proof -
  have "\<bar>round (v * 255) - c\<bar> \<le> 1" using assms(3) by (rule round_close)
  then have "\<bar>max 0 (min 255 (round (v * 255))) - c\<bar> \<le> 1"
    using assms(1,2) by linarith
  then have "\<bar>real_of_int (max 0 (min 255 (round (v * 255))) - c)\<bar> \<le> 1"
    by linarith
  then show ?thesis unfolding toByte_def by simp
qed

lemma channel_low:
  fixes c :: int
  assumes "0 \<le> c" "c \<le> 10"
    and "\<bar>v - gammaExpand (real_of_int c / 255)\<bar> \<le> 0.00005 * gammaExpand (real_of_int c / 255) + 0.00003"
  shows "\<bar>toByte (gammaCompress v) - real_of_int c\<bar> \<le> 1"
proof -
  let ?u = "real_of_int c / 255"
  have c: "0 \<le> real_of_int c" "real_of_int c \<le> 10" using assms(1,2) by simp_all
  have "\<not> ?u > 0.04045" using c by simp
  then have lin: "gammaExpand ?u = ?u / 12.92" by (simp add: gammaExpand_def)
  have v: "\<bar>v - ?u / 12.92\<bar> \<le> 0.00005 * (?u / 12.92) + 0.00003"
    using assms(3) unfolding lin .
  have "\<not> v > 0.0031308" using v c by (simp add: abs_le_iff; linarith)
  then have g: "gammaCompress v = 12.92 * v" by (simp add: gammaCompress_def)
  have "12.92 * v * 255 - real_of_int c < 3 / 2"
    using v c by (simp add: abs_le_iff; linarith)
  moreover have "- (12.92 * v * 255 - real_of_int c) < 3 / 2"
    using v c by (simp add: abs_le_iff; linarith)
  ultimately have "\<bar>12.92 * v * 255 - real_of_int c\<bar> < 3 / 2"
    by (simp only: abs_less_iff)
  then show ?thesis unfolding g using assms(1,2) by (intro toByte_close) simp_all
qed

lemma powr_24_split:
  fixes a :: real
  assumes "0 < a"
  shows "a powr 2.4 = a * a * a powr (2 / 5)"
proof -
  have "(2.4::real) = 2 + 2 / 5" by simp
  then have "a powr 2.4 = a powr (2 + 2 / 5)" by simp
  also have "\<dots> = a powr 2 * a powr (2 / 5)" by (rule powr_add)
  also have "a powr 2 = a * a" using assms by (simp add: power2_eq_square)
  finally show ?thesis .
qed

lemma powr_24_root:
  fixes a :: real
  assumes "0 < a"
  shows "(a powr 2.4) powr (1 / 2.4) = a"
proof -
  have "(a powr 2.4) powr (1 / 2.4) = a powr (2.4 * (1 / 2.4))" by (rule powr_powr)
  also have "\<dots> = a powr 1" by simp
  also have "\<dots> = a" using assms by simp
  finally show ?thesis .
qed

lemma powr_24_lower:
  fixes w :: real
  assumes "0.093 \<le> w"
  shows "0.00317 < w powr 2.4"
proof -
  have wpos: "0 < w" using assms by simp
  have "(w powr 2.4) ^ 5 = w powr (real 5 * 2.4)"
    using wpos by (intro powr_power) simp
  also have "\<dots> = w powr 12" by simp
  also have "\<dots> = w ^ 12" using wpos by simp
  finally have p: "(w powr 2.4) ^ 5 = w ^ 12" .
  have "(0.093::real) ^ 12 \<le> w ^ 12" using assms by (intro power_mono) simp_all
  moreover have "(0.00317::real) ^ 5 < 0.093 ^ 12" by (simp add: power_divide field_simps)
  ultimately have "(0.00317::real) ^ 5 < (w powr 2.4) ^ 5" unfolding p by linarith
  then show ?thesis by (rule power_less_imp_less_base) simp
qed

lemma channel_high:
  fixes c :: int
  assumes "11 \<le> c" "c \<le> 255"
    and "\<bar>v - gammaExpand (real_of_int c / 255)\<bar> \<le> 0.00005 * gammaExpand (real_of_int c / 255) + 0.00003"
  shows "\<bar>toByte (gammaCompress v) - real_of_int c\<bar> \<le> 1"
proof -
  define w where "w = (real_of_int c / 255 + 0.055) / 1.055"
  define q where "q = w powr (2 / 5)"
  define d :: real where "d = 1 / 200"
  define L where "L = w powr 2.4"
  have c: "11 \<le> real_of_int c" "real_of_int c \<le> 255" using assms(1,2) by simp_all
  have w_alt: "w = (1000 * real_of_int c + 14025) / 269025"
    unfolding w_def by (simp add: field_simps)
  have w: "93 / 1000 \<le> w" "w \<le> 1"
    unfolding w_alt using c by simp_all
  have wpos: "0 < w" using w(1) by simp
  have wd: "0 < w - d" "0 < w + d" using w(1) unfolding d_def by simp_all
  have cw: "real_of_int c = 255 * (1.055 * w - 0.055)"
    unfolding w_alt by (simp add: field_simps)
  have "real_of_int c / 255 > 0.04045" using c by (simp; linarith)
  then have lin: "gammaExpand (real_of_int c / 255) = L"
    unfolding gammaExpand_def L_def w_def by simp
  have q: "w \<le> q" "q \<le> 1" "0 \<le> q"
  proof -
    have "w powr 1 \<le> w powr (2 / 5)" using w wpos by (intro powr_mono') simp_all
    then show "w \<le> q" unfolding q_def using wpos by simp
    show "q \<le> 1" unfolding q_def using w wpos by (intro powr_le1) simp_all
    show "0 \<le> q" unfolding q_def by simp
  qed
  have Lq: "L = w * w * q" unfolding L_def q_def using wpos by (rule powr_24_split)
  have Llow: "317 / 100000 < L" unfolding L_def using w(1) powr_24_lower [of w] by simp
  have ww: "0 \<le> w * w" "w * w \<le> 1" using w wpos by (simp_all add: mult_le_one)
  have ab: "v - L \<le> 0.00005 * L + 0.00003 \<and> - (v - L) \<le> 0.00005 * L + 0.00003"
    using assms(3) unfolding lin abs_le_iff .
  have v1: "L - (5 / 100000 * L + 3 / 100000) \<le> v"
    using ab by (simp; linarith)
  have v2: "v \<le> L + (5 / 100000 * L + 3 / 100000)"
    using ab by (simp; linarith)
  note v = v1 v2
  have vbig: "v > 0.0031308" using v(1) Llow by (simp; linarith)
  have vpos: "0 \<le> v" using vbig by simp
  \<comment> \<open>the upper side\<close>
  have "88 / 100000 \<le> 2 * w * d + d * d - 5 / 100000 * (w * w)"
    using w ww unfolding d_def by (simp; linarith)
  then have "93 / 1000 * (88 / 100000) \<le> q * (2 * w * d + d * d - 5 / 100000 * (w * w))"
    using q w by (intro mult_mono) simp_all
  moreover have "(w + d) * (w + d) * q - (w * w * q + 5 / 100000 * (w * w * q))
      = q * (2 * w * d + d * d - 5 / 100000 * (w * w))"
    by (simp add: algebra_simps)
  ultimately have "L + (5 / 100000 * L + 3 / 100000) \<le> (w + d) * (w + d) * q"
    unfolding Lq by (simp; linarith)
  also have "\<dots> \<le> (w + d) * (w + d) * (w + d) powr (2 / 5)"
  proof -
    have "w powr (2 / 5) \<le> (w + d) powr (2 / 5)"
      using wpos by (intro powr_mono2) (simp_all add: d_def)
    then show ?thesis unfolding q_def using wd by (intro mult_left_mono) simp_all
  qed
  also have "\<dots> = (w + d) powr 2.4" using wd(2) by (rule powr_24_split [symmetric])
  finally have vhi: "v \<le> (w + d) powr 2.4" using v(2) by linarith
  \<comment> \<open>the lower side\<close>
  have "855 / 1000000 \<le> 2 * w * d - d * d - 5 / 100000 * (w * w)"
    using w ww unfolding d_def by (simp; linarith)
  then have "93 / 1000 * (855 / 1000000) \<le> q * (2 * w * d - d * d - 5 / 100000 * (w * w))"
    using q w by (intro mult_mono) simp_all
  moreover have "(w * w * q - 5 / 100000 * (w * w * q)) - (w - d) * (w - d) * q
      = q * (2 * w * d - d * d - 5 / 100000 * (w * w))"
    by (simp add: algebra_simps)
  ultimately have low: "(w - d) * (w - d) * q \<le> L - (5 / 100000 * L + 3 / 100000)"
    unfolding Lq by (simp; linarith)
  have "(w - d) powr 2.4 = (w - d) * (w - d) * (w - d) powr (2 / 5)"
    using wd(1) by (rule powr_24_split)
  also have "\<dots> \<le> (w - d) * (w - d) * q"
  proof -
    have "(w - d) powr (2 / 5) \<le> w powr (2 / 5)"
      using wd(1) by (intro powr_mono2) (simp_all add: d_def)
    then show ?thesis unfolding q_def using wd by (intro mult_left_mono) simp_all
  qed
  finally have vlo: "(w - d) powr 2.4 \<le> v" using low v(1) by linarith
  \<comment> \<open>back through the root\<close>
  have "v powr (1 / 2.4) \<le> ((w + d) powr 2.4) powr (1 / 2.4)"
    using vhi vpos by (intro powr_mono2) simp_all
  then have xhi: "v powr (1 / 2.4) \<le> w + d" unfolding powr_24_root [OF wd(2)] .
  have "((w - d) powr 2.4) powr (1 / 2.4) \<le> v powr (1 / 2.4)"
    using vlo by (intro powr_mono2) simp_all
  then have xlo: "w - d \<le> v powr (1 / 2.4)" unfolding powr_24_root [OF wd(1)] .
  have g: "gammaCompress v = 1.055 * v powr (1 / 2.4) - 0.055"
    using vbig by (simp add: gammaCompress_def)
  have "(1.055 * v powr (1 / 2.4) - 0.055) * 255 - real_of_int c < 3 / 2"
    unfolding cw using xhi unfolding d_def by (simp; linarith)
  moreover have "- ((1.055 * v powr (1 / 2.4) - 0.055) * 255 - real_of_int c) < 3 / 2"
    unfolding cw using xlo unfolding d_def by (simp; linarith)
  ultimately have "\<bar>gammaCompress v * 255 - real_of_int c\<bar> < 3 / 2"
    unfolding g by (simp only: abs_less_iff)
  then show ?thesis using assms(1,2) by (intro toByte_close) simp_all
qed

lemma channel_roundtrip:
  fixes c :: int
  assumes "0 \<le> c" "c \<le> 255"
    and "\<bar>v - gammaExpand (real_of_int c / 255)\<bar> \<le> 0.00005 * gammaExpand (real_of_int c / 255) + 0.00003"
  shows "\<bar>toByte (gammaCompress v) - real_of_int c\<bar> \<le> 1"
proof (cases "c \<le> 10")
  case True
  with assms show ?thesis by (intro channel_low)
next
  case False
  then have "11 \<le> c" by simp
  with assms show ?thesis by (intro channel_high)
qed

text \<open>
  C2. For integer channels \<open>r\<close>, \<open>g\<close>, \<open>b\<close> in \<open>0..255\<close>, converting the colour to Lab with
  \<open>rgbToLab\<close> and back with \<open>labToRgb\<close> gives channels that each differ from the original
  by at most 1 (in exact real arithmetic).
\<close>

theorem rgb_lab_roundtrip:
  fixes r g b :: int
  assumes "0 \<le> r" "r \<le> 255" "0 \<le> g" "g \<le> 255" "0 \<le> b" "b \<le> 255"
  shows "\<bar>rgb_r (labToRgb (rgbToLab
            \<lparr>rgb_r = real_of_int r, rgb_g = real_of_int g, rgb_b = real_of_int b\<rparr>)) - real_of_int r\<bar> \<le> 1
       \<and> \<bar>rgb_g (labToRgb (rgbToLab
            \<lparr>rgb_r = real_of_int r, rgb_g = real_of_int g, rgb_b = real_of_int b\<rparr>)) - real_of_int g\<bar> \<le> 1
       \<and> \<bar>rgb_b (labToRgb (rgbToLab
            \<lparr>rgb_r = real_of_int r, rgb_g = real_of_int g, rgb_b = real_of_int b\<rparr>)) - real_of_int b\<bar> \<le> 1"
proof -
  let ?R = "gammaExpand (real_of_int r / 255)"
  let ?G = "gammaExpand (real_of_int g / 255)"
  let ?B = "gammaExpand (real_of_int b / 255)"
  have R: "0 \<le> ?R \<and> ?R \<le> 1" using assms(1,2) by (intro gammaExpand_range) simp_all
  have G: "0 \<le> ?G \<and> ?G \<le> 1" using assms(3,4) by (intro gammaExpand_range) simp_all
  have B: "0 \<le> ?B \<and> ?B \<le> 1" using assms(5,6) by (intro gammaExpand_range) simp_all
  note comp = labToRgb_rgbToLab [of "real_of_int r" "real_of_int g" "real_of_int b"]
  have er: "\<bar>(?R * 0.4124 + ?G * 0.3576 + ?B * 0.1805) * 3.2406
         + (?R * 0.2126 + ?G * 0.7152 + ?B * 0.0722) * - 1.5372
         + (?R * 0.0193 + ?G * 0.1192 + ?B * 0.9505) * - 0.4986 - ?R\<bar> \<le> 0.00005 * ?R + 0.00003"
    using R G B by (intro mix_error_r) simp_all
  have eg: "\<bar>(?R * 0.4124 + ?G * 0.3576 + ?B * 0.1805) * - 0.9689
         + (?R * 0.2126 + ?G * 0.7152 + ?B * 0.0722) * 1.8758
         + (?R * 0.0193 + ?G * 0.1192 + ?B * 0.9505) * 0.0415 - ?G\<bar> \<le> 0.00005 * ?G + 0.00003"
    using R G B by (intro mix_error_g) simp_all
  have eb: "\<bar>(?R * 0.4124 + ?G * 0.3576 + ?B * 0.1805) * 0.0557
         + (?R * 0.2126 + ?G * 0.7152 + ?B * 0.0722) * - 0.2040
         + (?R * 0.0193 + ?G * 0.1192 + ?B * 0.9505) * 1.0570 - ?B\<bar> \<le> 0.00005 * ?B + 0.00003"
    using R G B by (intro mix_error_b) simp_all
  show ?thesis
    unfolding comp [OF conjunct1 [OF R] conjunct1 [OF G] conjunct1 [OF B]] rgb.simps
    using channel_roundtrip [OF assms(1,2) er] channel_roundtrip [OF assms(3,4) eg]
      channel_roundtrip [OF assms(5,6) eb]
    by (intro conjI)
qed

text \<open>C2 at the colour \<open>(255, 3, 45)\<close>.\<close>

theorem rgb_lab_roundtrip_witness:
  "(0::int) \<le> 255 \<and> (0::int) \<le> 3 \<and> (3::int) \<le> 255 \<and> (0::int) \<le> 45 \<and> (45::int) \<le> 255
   \<and> \<bar>rgb_r (labToRgb (rgbToLab \<lparr>rgb_r = 255, rgb_g = 3, rgb_b = 45\<rparr>)) - 255\<bar> \<le> 1
   \<and> \<bar>rgb_g (labToRgb (rgbToLab \<lparr>rgb_r = 255, rgb_g = 3, rgb_b = 45\<rparr>)) - 3\<bar> \<le> 1
   \<and> \<bar>rgb_b (labToRgb (rgbToLab \<lparr>rgb_r = 255, rgb_g = 3, rgb_b = 45\<rparr>)) - 45\<bar> \<le> 1"
  using rgb_lab_roundtrip [of 255 3 45] by simp

end
